theory Spec2Isabelle
  imports
    Complex_Main
    "HOL-Library.Multiset"
    "HOL-Library.Char_ord"
    "HOL-Library.List_Lexorder"
    "HOL-Library.Product_Lexorder"
begin

section \<open>Python primitives used by the sources\<close>

text \<open>
  Strings are character lists, a character being a code point below 256; code points from
  256 on are outside the model. The sources only ever lower-case and split strings, compare
  them and use them as dictionary keys. On these code points \<^verbatim>\<open>str.lower\<close> maps
  \<^verbatim>\<open>A-Z\<close> to \<^verbatim>\<open>a-z\<close> and the upper-case letters U+00C0 to U+00DE (all but the
  multiplication sign U+00D7) to the letters 32 places up, and \<^verbatim>\<open>str.split()\<close> cuts at
  runs of the characters for which \<^verbatim>\<open>str.isspace\<close> holds (TAB, LF, VT, FF, CR, FS, GS,
  RS, US, SPACE, NEL U+0085 and the no-break space U+00A0) and never yields an empty word.
\<close>

definition upper_case_letters :: string where
  "upper_case_letters =
     ''ABCDEFGHIJKLMNOPQRSTUVWXYZ'' @
       [CHR 0xC0, CHR 0xC1, CHR 0xC2, CHR 0xC3, CHR 0xC4, CHR 0xC5,
        CHR 0xC6, CHR 0xC7, CHR 0xC8, CHR 0xC9, CHR 0xCA, CHR 0xCB,
        CHR 0xCC, CHR 0xCD, CHR 0xCE, CHR 0xCF, CHR 0xD0, CHR 0xD1,
        CHR 0xD2, CHR 0xD3, CHR 0xD4, CHR 0xD5, CHR 0xD6, CHR 0xD8,
        CHR 0xD9, CHR 0xDA, CHR 0xDB, CHR 0xDC, CHR 0xDD, CHR 0xDE]"

definition lower_case_letters :: string where
  "lower_case_letters =
     ''abcdefghijklmnopqrstuvwxyz'' @
       [CHR 0xE0, CHR 0xE1, CHR 0xE2, CHR 0xE3, CHR 0xE4, CHR 0xE5,
        CHR 0xE6, CHR 0xE7, CHR 0xE8, CHR 0xE9, CHR 0xEA, CHR 0xEB,
        CHR 0xEC, CHR 0xED, CHR 0xEE, CHR 0xEF, CHR 0xF0, CHR 0xF1,
        CHR 0xF2, CHR 0xF3, CHR 0xF4, CHR 0xF5, CHR 0xF6, CHR 0xF8,
        CHR 0xF9, CHR 0xFA, CHR 0xFB, CHR 0xFC, CHR 0xFD, CHR 0xFE]"

definition lower_char :: "char \<Rightarrow> char" where
  "lower_char c =
     (case map_of (zip upper_case_letters lower_case_letters) c of
        Some d \<Rightarrow> d
      | None \<Rightarrow> c)"

definition py_lower :: "string \<Rightarrow> string" where
  "py_lower s = map lower_char s"

definition py_isspace :: "char \<Rightarrow> bool" where
  "py_isspace c \<longleftrightarrow>
     c \<in> set [CHR 0x09, CHR 0x0A, CHR 0x0B, CHR 0x0C, CHR 0x0D,
               CHR 0x1C, CHR 0x1D, CHR 0x1E, CHR 0x1F, CHR 0x20,
               CHR 0x85, CHR 0xA0]"

text \<open>
  \<^verbatim>\<open>s.split()\<close>: \<open>cur\<close> is the word being read; a whitespace character closes
  it, and an empty \<open>cur\<close> closes nothing.
\<close>

fun split_from :: "string \<Rightarrow> string \<Rightarrow> string list" where
  "split_from cur [] = (if cur = [] then [] else [cur])"
| "split_from cur (c # cs) =
     (if py_isspace c
      then (if cur = [] then split_from [] cs else cur # split_from [] cs)
      else split_from (cur @ [c]) cs)"

definition py_split :: "string \<Rightarrow> string list" where
  "py_split s = split_from [] s"

text \<open>\<^verbatim>\<open>sep.join(parts)\<close>.\<close>

fun py_join :: "string \<Rightarrow> string list \<Rightarrow> string" where
  "py_join sep [] = []"
| "py_join sep [p] = p"
| "py_join sep (p # q # ps) = p @ sep @ py_join sep (q # ps)"

text \<open>
  The slice \<^verbatim>\<open>xs[:k]\<close>. A negative \<open>k\<close> counts from the end of the list: the slice then
  drops the last \<open>-k\<close> elements instead of keeping the first \<open>k\<close>.
\<close>

definition py_slice_to :: "int \<Rightarrow> 'a list \<Rightarrow> 'a list" where
  "py_slice_to k xs =
     (if k < 0 then take (nat (int (length xs) + k)) xs else take (nat k) xs)"

text \<open>
  \<^verbatim>\<open>list.sort(reverse=True, key=key)\<close> and \<^verbatim>\<open>sorted(xs, reverse=True)\<close>: Python's
  sort is stable, also with \<^verbatim>\<open>reverse=True\<close>, so elements with equal keys keep their
  order while the keys descend. Each element is inserted in front of the first element
  whose key is not larger than its own. Tuples and strings compare lexicographically, which
  is the order the imported library instances give to pairs and character lists.
\<close>

fun insert_reverse :: "('a \<Rightarrow> 'k::linorder) \<Rightarrow> 'a \<Rightarrow> 'a list \<Rightarrow> 'a list" where
  "insert_reverse key x [] = [x]"
| "insert_reverse key x (y # ys) =
     (if key y \<le> key x then x # y # ys else y # insert_reverse key x ys)"

definition py_sort_reverse :: "('a \<Rightarrow> 'k::linorder) \<Rightarrow> 'a list \<Rightarrow> 'a list" where
  "py_sort_reverse key xs = foldr (insert_reverse key) xs []"


section \<open>Candidate links and the lexical prefilter (crawling.py)\<close>

text \<open>
  A candidate is the dictionary \<^verbatim>\<open>{"url": ..., "context": ...}\<close> built by
  \<^verbatim>\<open>extract_link_contexts\<close>.
\<close>

record link =
  link_url :: string
  link_context :: string

definition naive_relevance_score :: "string \<Rightarrow> string \<Rightarrow> nat" where
  "naive_relevance_score context_text query =
     (let query_keywords = set (py_split (py_lower query));
          context_words = set (py_split (py_lower context_text))
      in card (query_keywords \<inter> context_words))"


section \<open>Selecting the links to embed (embedding.py, lines 69 to 87)\<close>

text \<open>
  The module constant of config.py. The selection below takes the budget as an argument, so
  that statements about every budget can be made; the program always passes this constant.
\<close>

definition TOTAL_EMBEDDING_BUDGET :: int where
  "TOTAL_EMBEDDING_BUDGET = 30"

text \<open>
  Lines 71 to 76: score every link, sort the scored pairs by score only, descending, and keep
  the links of the slice \<^verbatim>\<open>scored[:max_docs]\<close> with \<^verbatim>\<open>max_docs = budget - 1\<close>.
\<close>

definition scored_links :: "string \<Rightarrow> link list \<Rightarrow> (nat \<times> link) list" where
  "scored_links query link_data =
     py_sort_reverse fst
       (map (\<lambda>l. (naive_relevance_score (link_context l) query, l)) link_data)"

definition select_by_score :: "int \<Rightarrow> string \<Rightarrow> link list \<Rightarrow> link list" where
  "select_by_score budget query link_data =
     (let max_docs = budget - 1
      in map snd (py_slice_to max_docs (scored_links query link_data)))"

text \<open>
  Lines 83 to 87, the backfill loop. \<open>selected_urls\<close> is computed once, before the loop, from
  the links selected by score; the loop appends every link whose URL is not in it and stops
  as soon as the selection has \<open>min_links\<close> elements.
\<close>

fun backfill_loop :: "int \<Rightarrow> string list \<Rightarrow> link list \<Rightarrow> link list \<Rightarrow> link list" where
  "backfill_loop min_links selected_urls [] selected = selected"
| "backfill_loop min_links selected_urls (l # ls) selected =
     (if link_url l \<notin> set selected_urls
      then (let selected' = selected @ [l]
            in if int (length selected') \<ge> min_links then selected'
               else backfill_loop min_links selected_urls ls selected')
      else backfill_loop min_links selected_urls ls selected)"

definition backfill :: "int \<Rightarrow> link list \<Rightarrow> link list \<Rightarrow> link list" where
  "backfill min_links link_data selected =
     (if int (length selected) < min_links
      then backfill_loop min_links (map link_url selected) link_data selected
      else selected)"

definition selection_set :: "int \<Rightarrow> int \<Rightarrow> string \<Rightarrow> link list \<Rightarrow> link list" where
  "selection_set budget min_links query link_data =
     backfill min_links link_data (select_by_score budget query link_data)"


section \<open>Exceptions, the outside world and the external collaborators\<close>

text \<open>
  The exception classes the sources tell apart, all subclasses of \<^verbatim>\<open>Exception\<close>:
  the four classes imported from \<^verbatim>\<open>google.api_core.exceptions\<close>, the decoding and
  parsing errors of the cache files, and any other exception with its message.
\<close>

datatype exn =
    ResourceExhausted
  | InternalServerError
  | Unauthorized
  | Forbidden
  | UnicodeDecodeError
  | JSONDecodeError
  | OtherError string

type_synonym vec = "real list"

record document =
  page_content :: string
  metadata_source :: string

text \<open>
  A cache file holds text, or bytes that are not valid in the encoding it is read with.
\<close>

datatype file_data = Text string | Undecodable

text \<open>
  The state outside the program: the files under the cache directories (by path), the
  paths written so far, in order, the number of calls made to the embedding provider and
  the number of pages requested from the network. Storage failures (a full disk, missing
  permissions) are outside the model: a write always reaches the file.
\<close>

record world =
  files :: "string \<Rightarrow> file_data option"
  write_log :: "string list"
  embed_calls :: nat
  page_fetches :: nat

text \<open>
  The library and provider functions the sources call, taken as parameters:
  \<^verbatim>\<open>hashlib.md5(...).hexdigest()\<close>, \<^verbatim>\<open>json.dump\<close> and \<^verbatim>\<open>json.load\<close>,
  the provider's \<^verbatim>\<open>embed_query\<close> (its answer may depend on how many calls came before,
  so the call number is an argument), \<^verbatim>\<open>cosine_similarity\<close> of two single vectors (it
  raises on vectors it cannot compare), \<^verbatim>\<open>WebBaseLoader(url).load()\<close> (by request
  number) and the text splitter.
\<close>

record ext =
  md5_hexdigest :: "string \<Rightarrow> string"
  json_dump :: "vec \<Rightarrow> string"
  json_load :: "string \<Rightarrow> exn + vec"
  provider_embed :: "nat \<Rightarrow> string \<Rightarrow> exn + vec"
  cosine_similarity :: "vec \<Rightarrow> vec \<Rightarrow> exn + real"
  web_load :: "nat \<Rightarrow> string \<Rightarrow> exn + document list"
  split_documents :: "document list \<Rightarrow> document list"


section \<open>The caches (utils.py, cache_manager.py)\<close>

definition hash_url :: "ext \<Rightarrow> string \<Rightarrow> string" where
  "hash_url E u = md5_hexdigest E u"

definition PAGE_CACHE_DIR :: string where
  "PAGE_CACHE_DIR = ''cache/pages''"

definition EMBEDDING_CACHE_DIR :: string where
  "EMBEDDING_CACHE_DIR = ''cache/embeddings''"

definition page_path :: "ext \<Rightarrow> string \<Rightarrow> string" where
  "page_path E u = PAGE_CACHE_DIR @ ''/'' @ hash_url E u @ ''.txt''"

definition embedding_path :: "ext \<Rightarrow> string \<Rightarrow> string" where
  "embedding_path E u = EMBEDDING_CACHE_DIR @ ''/'' @ hash_url E u @ ''.emb''"

text \<open>
  Both caches open their files in text mode with the default \<^verbatim>\<open>newline=None\<close>. On a
  POSIX system writing stores the characters as they are; reading translates every
  CR LF pair and every remaining CR into LF before the text reaches the caller.
\<close>

fun universal_newlines :: "string \<Rightarrow> string" where
  "universal_newlines [] = []"
| "universal_newlines [c] = (if c = CHR 0x0D then [CHR 0x0A] else [c])"
| "universal_newlines (c # d # ds) =
     (if c = CHR 0x0D \<and> d = CHR 0x0A then CHR 0x0A # universal_newlines ds
      else if c = CHR 0x0D then CHR 0x0A # universal_newlines (d # ds)
      else c # universal_newlines (d # ds))"

definition write_text :: "string \<Rightarrow> string \<Rightarrow> world \<Rightarrow> world" where
  "write_text path s w =
     w\<lparr>files := (files w)(path \<mapsto> Text s), write_log := write_log w @ [path]\<rparr>"

definition read_text :: "file_data \<Rightarrow> exn + string" where
  "read_text d = (case d of Text s \<Rightarrow> Inr (universal_newlines s) | Undecodable \<Rightarrow> Inl UnicodeDecodeError)"

definition PageCache_save :: "ext \<Rightarrow> string \<Rightarrow> string \<Rightarrow> world \<Rightarrow> world" where
  "PageCache_save E u text w = write_text (page_path E u) text w"

text \<open>
  \<^verbatim>\<open>load\<close>: \<open>None\<close> when the path does not exist, and also when reading raises, since the
  handler only logs and falls through to \<^verbatim>\<open>return None\<close>.
\<close>

definition PageCache_load :: "ext \<Rightarrow> string \<Rightarrow> world \<Rightarrow> string option" where
  "PageCache_load E u w =
     (case files w (page_path E u) of
        None \<Rightarrow> None
      | Some d \<Rightarrow> (case read_text d of Inl e \<Rightarrow> None | Inr s \<Rightarrow> Some s))"

definition EmbeddingCache_save :: "ext \<Rightarrow> string \<Rightarrow> vec \<Rightarrow> world \<Rightarrow> world" where
  "EmbeddingCache_save E u embedding w = write_text (embedding_path E u) (json_dump E embedding) w"

definition EmbeddingCache_load :: "ext \<Rightarrow> string \<Rightarrow> world \<Rightarrow> vec option" where
  "EmbeddingCache_load E u w =
     (case files w (embedding_path E u) of
        None \<Rightarrow> None
      | Some d \<Rightarrow>
          (case read_text d of
             Inl e \<Rightarrow> None
           | Inr s \<Rightarrow> (case json_load E s of Inl e \<Rightarrow> None | Inr v \<Rightarrow> Some v)))"


section \<open>Ranking links by embedding similarity (embedding.py)\<close>

text \<open>
  \<^verbatim>\<open>embed_query\<close> and \<^verbatim>\<open>embed_document\<close> both make one call to the provider's
  \<^verbatim>\<open>embed_query\<close>; their handlers log the exception and raise it again.
\<close>

definition embed_query :: "ext \<Rightarrow> string \<Rightarrow> world \<Rightarrow> (exn + vec) \<times> world" where
  "embed_query E query w =
     (provider_embed E (embed_calls w) query, w\<lparr>embed_calls := embed_calls w + 1\<rparr>)"

definition embed_document :: "ext \<Rightarrow> string \<Rightarrow> world \<Rightarrow> (exn + vec) \<times> world" where
  "embed_document E text w =
     (provider_embed E (embed_calls w) text, w\<lparr>embed_calls := embed_calls w + 1\<rparr>)"

text \<open>
  Lines 96 to 103, the embedding of one selected link: the cached vector if the cache has
  one, otherwise a fresh embedding of the link's context, saved under the link's URL.
\<close>

definition link_embedding :: "ext \<Rightarrow> link \<Rightarrow> world \<Rightarrow> (exn + vec) \<times> world" where
  "link_embedding E l w =
     (case EmbeddingCache_load E (link_url l) w of
        None \<Rightarrow>
          (case embed_document E (link_context l) w of
             (Inl e, w') \<Rightarrow> (Inl e, w')
           | (Inr emb, w') \<Rightarrow> (Inr emb, EmbeddingCache_save E (link_url l) emb w'))
      | Some cached_vec \<Rightarrow> (Inr cached_vec, w))"

text \<open>
  Lines 94 to 107, the loop over the selected links. An exception leaves the loop at once;
  \<open>acc\<close> is the list \<^verbatim>\<open>scored_links\<close> of (score, url) pairs built so far.
\<close>

fun score_selected ::
  "ext \<Rightarrow> vec \<Rightarrow> link list \<Rightarrow> (real \<times> string) list \<Rightarrow> world
     \<Rightarrow> (exn + (real \<times> string) list) \<times> world" where
  "score_selected E query_embedding [] acc w = (Inr acc, w)"
| "score_selected E query_embedding (l # ls) acc w =
     (case link_embedding E l w of
        (Inl e, w') \<Rightarrow> (Inl e, w')
      | (Inr emb, w') \<Rightarrow>
          (case cosine_similarity E query_embedding emb of
             Inl e \<Rightarrow> (Inl e, w')
           | Inr score \<Rightarrow>
               score_selected E query_embedding ls (acc @ [(score, link_url l)]) w'))"

text \<open>
  The body of the \<^verbatim>\<open>try\<close> block up to \<^verbatim>\<open>top_links\<close> (lines 69 to 110): either the
  exception that left it, or the sorted and cut list of (score, url) pairs.
\<close>

definition rank_try ::
  "ext \<Rightarrow> int \<Rightarrow> string \<Rightarrow> link list \<Rightarrow> int \<Rightarrow> int \<Rightarrow> world
     \<Rightarrow> (exn + (real \<times> string) list) \<times> world" where
  "rank_try E budget query link_data top_k min_links w =
     (let selected_links = selection_set budget min_links query link_data
      in case embed_query E query w of
           (Inl e, w1) \<Rightarrow> (Inl e, w1)
         | (Inr query_embedding, w1) \<Rightarrow>
             (case score_selected E query_embedding selected_links [] w1 of
                (Inl e, w2) \<Rightarrow> (Inl e, w2)
              | (Inr scored, w2) \<Rightarrow>
                  (Inr (py_slice_to top_k (py_sort_reverse (\<lambda>p. p) scored)), w2)))"

text \<open>
  The whole function: the three handlers of lines 113 to 121 return the empty list, and the
  normal path returns the URLs of \<^verbatim>\<open>top_links\<close>.
\<close>

definition rank_links_by_query_relevance ::
  "ext \<Rightarrow> int \<Rightarrow> string \<Rightarrow> link list \<Rightarrow> int \<Rightarrow> int \<Rightarrow> world \<Rightarrow> string list \<times> world" where
  "rank_links_by_query_relevance E budget query link_data top_k min_links w =
     (case rank_try E budget query link_data top_k min_links w of
        (Inl Unauthorized, w') \<Rightarrow> ([], w')
      | (Inl Forbidden, w') \<Rightarrow> ([], w')
      | (Inl e, w') \<Rightarrow> ([], w')
      | (Inr top_links, w') \<Rightarrow> (map snd top_links, w'))"


text \<open>
  The specification's steps 5 and 6, written from its words as relations, to compare the
  loop of the source with. For one link: on a cache hit the cached vector is reused and
  nothing changes; on a miss the provider is called once, on the link's context, and the
  vector is cached under the link's URL.
\<close>

definition spec_cache_first_embedding :: "ext \<Rightarrow> link \<Rightarrow> world \<Rightarrow> vec \<Rightarrow> world \<Rightarrow> bool" where
  "spec_cache_first_embedding E l w emb w' \<longleftrightarrow>
     (EmbeddingCache_load E (link_url l) w = Some emb \<and> w' = w)
     \<or> (EmbeddingCache_load E (link_url l) w = None
        \<and> provider_embed E (embed_calls w) (link_context l) = Inr emb
        \<and> w' = EmbeddingCache_save E (link_url l) emb (w\<lparr>embed_calls := embed_calls w + 1\<rparr>))"

text \<open>
  For the selected links in turn: each link is embedded as above, in the world left by the
  links before it, and gets the pair of the similarity between the query embedding and its
  own vector, and its URL.
\<close>

fun spec_scored_in_turn ::
  "ext \<Rightarrow> vec \<Rightarrow> world \<Rightarrow> link list \<Rightarrow> (real \<times> string) list \<Rightarrow> world \<Rightarrow> bool" where
  "spec_scored_in_turn E qe w [] ps w' \<longleftrightarrow> ps = [] \<and> w' = w"
| "spec_scored_in_turn E qe w (l # ls) ps w' \<longleftrightarrow>
     (\<exists>emb w1 score rest.
        spec_cache_first_embedding E l w emb w1
        \<and> cosine_similarity E qe emb = Inr score
        \<and> ps = (score, link_url l) # rest
        \<and> spec_scored_in_turn E qe w1 ls rest w')"


section \<open>Loading one page (document_processor.py)\<close>

text \<open>
  Lines 41 to 57 of \<^verbatim>\<open>load_single_url\<close>, the page is not served from the cache: it is
  requested from the network. A failure returns no chunks and writes nothing; a success
  saves the joined page contents under the URL and returns the chunks of the loaded
  documents.
\<close>

definition load_from_web :: "ext \<Rightarrow> string \<Rightarrow> world \<Rightarrow> document list \<times> world" where
  "load_from_web E u w =
     (let w1 = w\<lparr>page_fetches := page_fetches w + 1\<rparr>
      in case web_load E (page_fetches w) u of
           Inl e \<Rightarrow> ([], w1)
         | Inr docs \<Rightarrow>
             (let full_text = py_join [CHR 0x0A, CHR 0x0A] (map page_content docs);
                  w2 = PageCache_save E u full_text w1
              in (split_documents E docs, w2)))"

text \<open>
  \<^verbatim>\<open>load_single_url\<close>. The test \<^verbatim>\<open>if cached:\<close> holds for a cached text that is
  neither \<^verbatim>\<open>None\<close> nor the empty string.
\<close>

definition load_single_url :: "ext \<Rightarrow> string \<Rightarrow> world \<Rightarrow> document list \<times> world" where
  "load_single_url E u w =
     (case PageCache_load E u w of
        None \<Rightarrow> load_from_web E u w
      | Some cached \<Rightarrow>
          if cached \<noteq> []
          then (split_documents E [\<lparr>page_content = cached, metadata_source = u\<rparr>], w)
          else load_from_web E u w)"


section \<open>Invoking the chain with retries (rag_chain.py)\<close>

text \<open>
  What \<^verbatim>\<open>safe_invoke\<close> returns: the chain's result, the dictionary whose answer reports
  the exception, or the dictionary whose answer reports that all attempts failed.
\<close>

datatype 'r answer = Result 'r | ErrorOccurred exn | FailedAfterAttempts

text \<open>
  What a run of \<^verbatim>\<open>safe_invoke\<close> did: how often it called \<^verbatim>\<open>invoke_once\<close>, and the
  arguments of its \<^verbatim>\<open>time.sleep\<close> calls in order.
\<close>

record run =
  attempts :: nat
  sleeps :: "real list"

text \<open>
  The loop \<^verbatim>\<open>for attempt in range(3)\<close>, started with \<open>delay = 1\<close>. The chain's answer
  to the attempt and the value drawn by \<^verbatim>\<open>random.uniform\<close> are given by attempt number.
\<close>

fun safe_invoke_loop ::
  "(nat \<Rightarrow> exn + 'r) \<Rightarrow> (nat \<Rightarrow> real \<Rightarrow> real \<Rightarrow> real) \<Rightarrow> nat list \<Rightarrow> real \<Rightarrow> run
     \<Rightarrow> 'r answer \<times> run" where
  "safe_invoke_loop invoke_once uniform [] delay r = (FailedAfterAttempts, r)"
| "safe_invoke_loop invoke_once uniform (attempt # rest) delay r =
     (let r1 = r\<lparr>attempts := attempts r + 1\<rparr>
      in case invoke_once attempt of
           Inr result \<Rightarrow> (Result result, r1)
         | Inl ResourceExhausted \<Rightarrow>
             safe_invoke_loop invoke_once uniform rest delay (r1\<lparr>sleeps := sleeps r1 @ [60]\<rparr>)
         | Inl InternalServerError \<Rightarrow>
             (let jitter = uniform attempt 0 (0.1 * delay);
                  sleep_time = delay + jitter
              in safe_invoke_loop invoke_once uniform rest (min (delay * 2) 60)
                   (r1\<lparr>sleeps := sleeps r1 @ [sleep_time]\<rparr>))
         | Inl e \<Rightarrow> (ErrorOccurred e, r1))"

definition safe_invoke ::
  "(nat \<Rightarrow> exn + 'r) \<Rightarrow> (nat \<Rightarrow> real \<Rightarrow> real \<Rightarrow> real) \<Rightarrow> 'r answer \<times> run" where
  "safe_invoke invoke_once uniform =
     safe_invoke_loop invoke_once uniform [0..<3] 1 \<lparr>attempts = 0, sleeps = []\<rparr>"


section \<open>Example inputs\<close>

text \<open>
  Three candidate links, and stand-ins for the external collaborators: the identity as
  hash, a JSON codec for the three unit vectors the stand-in provider returns, the dot
  product as similarity (the cosine, on unit vectors), a loader that always finds a page
  and a splitter that returns the documents unchanged.
\<close>

definition link_about :: link where
  "link_about = \<lparr>link_url = ''http://h/a'', link_context = ''About us http://h/a''\<rparr>"

definition link_benefits :: link where
  "link_benefits = \<lparr>link_url = ''http://h/b'', link_context = ''Employee Benefits http://h/b''\<rparr>"

definition link_pay :: link where
  "link_pay = \<lparr>link_url = ''http://h/c'', link_context = ''benefits and pay http://h/c''\<rparr>"

definition example_links :: "link list" where
  "example_links = [link_about, link_benefits, link_pay]"

definition stub_vectors :: "(vec \<times> string) list" where
  "stub_vectors =
     [([1, 0], ''[1.0, 0.0]''), ([0, 1], ''[0.0, 1.0]''), ([3 / 5, 4 / 5], ''[0.6, 0.8]'')]"

definition stub_embed :: "string \<Rightarrow> vec" where
  "stub_embed text =
     (if ''pay'' \<in> set (py_split (py_lower text)) then [1, 0]
      else if ''benefits'' \<in> set (py_split (py_lower text)) then [3 / 5, 4 / 5]
      else [0, 1])"

definition stub_ext :: ext where
  "stub_ext =
     \<lparr>md5_hexdigest = (\<lambda>u. u),
      json_dump = (\<lambda>v. case map_of stub_vectors v of Some s \<Rightarrow> s | None \<Rightarrow> ''[]''),
      json_load = (\<lambda>s. case map_of (map (\<lambda>(v, s). (s, v)) stub_vectors) s of
                          Some v \<Rightarrow> Inr v
                        | None \<Rightarrow> Inl JSONDecodeError),
      provider_embed = (\<lambda>n text. Inr (stub_embed text)),
      cosine_similarity =
        (\<lambda>a b. if length a = length b then Inr (sum_list (map2 (*) a b))
                else Inl (OtherError ''incompatible dimensions'')),
      web_load = (\<lambda>n u. Inr [\<lparr>page_content = ''page of '' @ u, metadata_source = u\<rparr>]),
      split_documents = (\<lambda>docs. docs)\<rparr>"

definition empty_world :: world where
  "empty_world = \<lparr>files = (\<lambda>path. None), write_log = [], embed_calls = 0, page_fetches = 0\<rparr>"

definition link_contact :: link where
  "link_contact = \<lparr>link_url = ''http://h/d'', link_context = ''Contact http://h/d''\<rparr>"

definition ten_links :: "link list" where
  "ten_links =
     map (\<lambda>c. \<lparr>link_url = ''http://h/'' @ [c], link_context = ''page '' @ [c]\<rparr>) ''0123456789''"

text \<open>The stand-in provider, except that its call number \<open>k\<close> raises \<open>e\<close>.\<close>

definition failing_at :: "nat \<Rightarrow> exn \<Rightarrow> ext" where
  "failing_at k e =
     stub_ext\<lparr>provider_embed := (\<lambda>n text. if n = k then Inl e else Inr (stub_embed text))\<rparr>"

text \<open>A world whose embedding cache already holds a vector for the first example link.\<close>

definition warm_world :: world where
  "warm_world = EmbeddingCache_save stub_ext ''http://h/a'' [0, 1] empty_world"

text \<open>
  The world after the query and the first selected example link have been embedded, and
  collaborators whose similarity always raises.
\<close>

definition after_first_link :: "ext \<Rightarrow> world" where
  "after_first_link E =
     (let w1 = empty_world\<lparr>embed_calls := embed_calls empty_world + 1\<rparr>
      in EmbeddingCache_save E (link_url link_pay) [1, 0] (w1\<lparr>embed_calls := embed_calls w1 + 1\<rparr>))"

definition broken_similarity :: ext where
  "broken_similarity =
     stub_ext\<lparr>cosine_similarity := (\<lambda>a b. Inl (OtherError ''Input contains NaN''))\<rparr>"

text \<open>Loaders that never reach the page, and that find a page with no text.\<close>

definition unreachable_web :: ext where
  "unreachable_web = stub_ext\<lparr>web_load := (\<lambda>n u. Inl (OtherError ''connection refused''))\<rparr>"

definition empty_page_web :: ext where
  "empty_page_web = stub_ext\<lparr>web_load := (\<lambda>n u. Inr [\<lparr>page_content = [], metadata_source = u\<rparr>])\<rparr>"

text \<open>
  Chains for \<^verbatim>\<open>safe_invoke\<close>: two internal server errors and then an answer, an
  authorization error at every attempt, an exhausted quota at every attempt; and a random
  source that always draws the lower bound.
\<close>

definition twice_transient :: "nat \<Rightarrow> exn + string" where
  "twice_transient n = (if n < 2 then Inl InternalServerError else Inr ''answer'')"

definition always_unauthorized :: "nat \<Rightarrow> exn + string" where
  "always_unauthorized n = Inl Unauthorized"

definition always_exhausted :: "nat \<Rightarrow> exn + string" where
  "always_exhausted n = Inl ResourceExhausted"

definition no_jitter :: "nat \<Rightarrow> real \<Rightarrow> real \<Rightarrow> real" where
  "no_jitter n a b = a"




section \<open>The stable descending sort\<close>

lemma mset_insert_reverse: "mset (insert_reverse key x xs) = add_mset x (mset xs)"
  by (induction xs) auto

lemma mset_py_sort_reverse: "mset (py_sort_reverse key xs) = mset xs"
  unfolding py_sort_reverse_def by (induction xs) (auto simp: mset_insert_reverse)

lemma set_insert_reverse: "set (insert_reverse key x xs) = insert x (set xs)"
  by (induction xs) auto

lemma sorted_insert_reverse:
  "sorted_wrt (\<lambda>a b. key b \<le> key a) xs \<Longrightarrow> sorted_wrt (\<lambda>a b. key b \<le> key a) (insert_reverse key x xs)"
  by (induction xs) (auto simp: set_insert_reverse)

lemma sorted_py_sort_reverse: "sorted_wrt (\<lambda>a b. key b \<le> key a) (py_sort_reverse key xs)"
  unfolding py_sort_reverse_def by (induction xs) (auto simp: sorted_insert_reverse)

lemma filter_insert_reverse_other:
  "key x \<noteq> k \<Longrightarrow> filter (\<lambda>y. key y = k) (insert_reverse key x xs) = filter (\<lambda>y. key y = k) xs"
  by (induction xs) auto

lemma filter_insert_reverse_same:
  "sorted_wrt (\<lambda>a b. key b \<le> key a) xs \<Longrightarrow>
   filter (\<lambda>y. key y = key x) (insert_reverse key x xs) = x # filter (\<lambda>y. key y = key x) xs"
proof (induction xs)
  case Nil
  then show ?case by simp
next
  case (Cons y ys)
  show ?case
  proof (cases "key y \<le> key x")
    case True
    then show ?thesis by simp
  next
    case False
    then have "key y \<noteq> key x" by auto
    with False Cons show ?thesis by simp
  qed
qed

lemma stable_py_sort_reverse:
  "filter (\<lambda>y. key y = k) (py_sort_reverse key xs) = filter (\<lambda>y. key y = k) xs"
proof (induction xs)
  case Nil
  then show ?case by (simp add: py_sort_reverse_def)
next
  case (Cons x xs)
  have step: "py_sort_reverse key (x # xs) = insert_reverse key x (py_sort_reverse key xs)"
    by (simp add: py_sort_reverse_def)
  show ?case
  proof (cases "key x = k")
    case True
    then show ?thesis
      using Cons filter_insert_reverse_same [OF sorted_py_sort_reverse, of key x xs]
      by (simp add: step)
  next
    case False
    then show ?thesis using Cons by (simp add: step filter_insert_reverse_other)
  qed
qed

lemma length_py_slice_to: "0 \<le> k \<Longrightarrow> int (length (py_slice_to k xs)) \<le> k"
  by (simp add: py_slice_to_def)

lemma set_py_slice_to: "set (py_slice_to k xs) \<subseteq> set xs"
  by (auto simp: py_slice_to_def dest: in_set_takeD)

lemma set_py_sort_reverse: "set (py_sort_reverse key xs) = set xs"
  using mset_py_sort_reverse [of key xs] by (metis set_mset_mset)

lemma length_py_sort_reverse: "length (py_sort_reverse key xs) = length xs"
  using mset_py_sort_reverse [of key xs] by (metis size_mset)


section \<open>The selection by lexical score\<close>

lemma scored_links_fst:
  "p \<in> set (scored_links query link_data) \<Longrightarrow>
   fst p = naive_relevance_score (link_context (snd p)) query"
  by (auto simp: scored_links_def set_py_sort_reverse)

lemma mset_scored_links: "mset (map snd (scored_links query link_data)) = mset link_data"
proof -
  have "mset (map snd (scored_links query link_data)) =
        image_mset snd (mset (map (\<lambda>l. (naive_relevance_score (link_context l) query, l)) link_data))"
    by (simp add: scored_links_def mset_py_sort_reverse)
  also have "\<dots> = mset link_data"
    by (simp add: image_mset.compositionality comp_def)
  finally show ?thesis .
qed

lemma length_scored_links: "length (scored_links query link_data) = length link_data"
  by (simp add: scored_links_def length_py_sort_reverse)

lemma sorted_scored_links:
  "sorted_wrt (\<lambda>a b. naive_relevance_score (link_context b) query
                     \<le> naive_relevance_score (link_context a) query)
     (map snd (scored_links query link_data))"
proof -
  have "sorted_wrt (\<lambda>p q. fst q \<le> fst p) (scored_links query link_data)"
    unfolding scored_links_def by (rule sorted_py_sort_reverse)
  then have "sorted_wrt (\<lambda>p q. naive_relevance_score (link_context (snd q)) query
                     \<le> naive_relevance_score (link_context (snd p)) query) (scored_links query link_data)"
    by (rule sorted_wrt_mono_rel [rotated]) (simp add: scored_links_fst)
  then show ?thesis by (simp add: sorted_wrt_map)
qed

lemma stable_scored_links:
  "filter (\<lambda>l. naive_relevance_score (link_context l) query = k) (map snd (scored_links query link_data))
   = filter (\<lambda>l. naive_relevance_score (link_context l) query = k) link_data"
proof -
  let ?f = "\<lambda>l. (naive_relevance_score (link_context l) query, l)"
  have "filter (\<lambda>l. naive_relevance_score (link_context l) query = k) (map snd (scored_links query link_data))
      = map snd (filter (\<lambda>p. naive_relevance_score (link_context (snd p)) query = k) (scored_links query link_data))"
    by (simp add: filter_map comp_def)
  also have "\<dots> = map snd (filter (\<lambda>p. fst p = k) (scored_links query link_data))"
    by (rule arg_cong [where f = "map snd"], rule filter_cong) (simp_all add: scored_links_fst)
  also have "\<dots> = map snd (filter (\<lambda>p. fst p = k) (map ?f link_data))"
    by (simp add: scored_links_def stable_py_sort_reverse)
  also have "\<dots> = filter (\<lambda>l. naive_relevance_score (link_context l) query = k) link_data"
    by (induction link_data) auto
  finally show ?thesis .
qed

text \<open>
  C4. For a budget of at least one (the program's is 30), the links selected before the
  backfill are the first \<open>budget - 1\<close> elements of a list that holds exactly the candidates,
  in descending order of lexical score, with candidates of equal score in the order in
  which they were extracted.
\<close>

theorem select_by_score_stable_prefix:
  assumes "1 \<le> budget"
  shows "select_by_score budget query link_data
           = take (nat (budget - 1)) (map snd (scored_links query link_data))
       \<and> mset (map snd (scored_links query link_data)) = mset link_data
       \<and> sorted_wrt (\<lambda>a b. naive_relevance_score (link_context b) query
                             \<le> naive_relevance_score (link_context a) query)
           (map snd (scored_links query link_data))
       \<and> (\<forall>k. filter (\<lambda>l. naive_relevance_score (link_context l) query = k)
                 (map snd (scored_links query link_data))
             = filter (\<lambda>l. naive_relevance_score (link_context l) query = k) link_data)"
proof -
  have "select_by_score budget query link_data
           = take (nat (budget - 1)) (map snd (scored_links query link_data))"
    using assms by (simp add: select_by_score_def py_slice_to_def take_map)
  then show ?thesis
    using mset_scored_links sorted_scored_links stable_scored_links by blast
qed

theorem select_by_score_stable_prefix_witness:
  "1 \<le> TOTAL_EMBEDDING_BUDGET
   \<and> select_by_score TOTAL_EMBEDDING_BUDGET ''benefits pay'' example_links
       = take (nat (TOTAL_EMBEDDING_BUDGET - 1))
           (map snd (scored_links ''benefits pay'' example_links))
   \<and> select_by_score TOTAL_EMBEDDING_BUDGET ''benefits pay'' example_links
       = [link_pay, link_benefits, link_about]
   \<and> select_by_score 3 ''benefits pay'' example_links = [link_pay, link_benefits]"
proof -
  have h: "1 \<le> TOTAL_EMBEDDING_BUDGET"
    by (simp add: TOTAL_EMBEDDING_BUDGET_def)
  have v: "select_by_score TOTAL_EMBEDDING_BUDGET ''benefits pay'' example_links
             = [link_pay, link_benefits, link_about]"
    by code_simp
  have v3: "select_by_score 3 ''benefits pay'' example_links = [link_pay, link_benefits]"
    by code_simp
  show ?thesis
    using h v v3 select_by_score_stable_prefix [OF h, of "''benefits pay''" example_links]
    by blast
qed


section \<open>The backfill\<close>

lemma backfill_loop_take_filter:
  "int (length acc) < m \<Longrightarrow>
   backfill_loop m su ls acc
     = acc @ take (nat (m - int (length acc))) (filter (\<lambda>l. link_url l \<notin> set su) ls)"
proof (induction ls arbitrary: acc)
  case Nil
  then show ?case by simp
next
  case (Cons l ls)
  show ?case
  proof (cases "link_url l \<in> set su")
    case True
    then show ?thesis using Cons by simp
  next
    case False
    show ?thesis
    proof (cases "m \<le> int (length acc) + 1")
      case True
      with Cons.prems have "nat (m - int (length acc)) = 1" by simp
      with True False show ?thesis by (simp add: Let_def)
    next
      case stop: False
      then have lt: "int (length (acc @ [l])) < m" by simp
      have "nat (m - int (length acc)) = Suc (nat (m - int (length (acc @ [l]))))"
        using stop by simp
      then show ?thesis
        using False stop Cons.IH [OF lt] by (simp add: Let_def)
    qed
  qed
qed

lemma backfill_take_filter:
  "int (length selected) < m \<Longrightarrow>
   backfill m link_data selected
     = selected @ take (nat (m - int (length selected)))
                    (filter (\<lambda>l. link_url l \<notin> set (map link_url selected)) link_data)"
  by (simp add: backfill_def backfill_loop_take_filter)

lemma length_backfill_le:
  "int (length (backfill m link_data selected)) \<le> max (int (length selected)) m"
proof (cases "int (length selected) < m")
  case True
  then show ?thesis by (simp add: backfill_take_filter)
next
  case False
  then show ?thesis by (simp add: backfill_def)
qed

lemma count_urls_in:
  assumes "distinct (map link_url ls)"
  shows "length (filter (\<lambda>l. link_url l \<in> S) ls) = card (S \<inter> set (map link_url ls))"
proof -
  let ?us = "filter (\<lambda>u. u \<in> S) (map link_url ls)"
  have a: "card (set ?us) = length ?us"
    using assms by (intro distinct_card distinct_filter)
  have b: "length ?us = length (filter (\<lambda>l. link_url l \<in> S) ls)"
    by (simp add: comp_def)
  have c: "set ?us = S \<inter> set (map link_url ls)"
    by auto
  show ?thesis using a b unfolding c by linarith
qed

lemma length_unselected:
  assumes "distinct (map link_url ls)"
  shows "length ls \<le> length (filter (\<lambda>l. link_url l \<notin> set (map link_url sel)) ls) + length sel"
proof -
  have "length ls = length (filter (\<lambda>l. link_url l \<in> set (map link_url sel)) ls)
                  + length (filter (\<lambda>l. link_url l \<notin> set (map link_url sel)) ls)"
    using sum_length_filter_compl [of "\<lambda>l. link_url l \<in> set (map link_url sel)" ls] by simp
  moreover have "length (filter (\<lambda>l. link_url l \<in> set (map link_url sel)) ls) \<le> length sel"
  proof -
    have "length (filter (\<lambda>l. link_url l \<in> set (map link_url sel)) ls)
            = card (set (map link_url sel) \<inter> set (map link_url ls))"
      using assms by (rule count_urls_in)
    also have "\<dots> \<le> card (set (map link_url sel))"
      by (rule card_mono) auto
    also have "\<dots> \<le> length sel"
      using card_length [of "map link_url sel"] by simp
    finally show ?thesis .
  qed
  ultimately show ?thesis by linarith
qed

text \<open>
  C5. For candidates with pairwise distinct URLs: when fewer than \<open>min_links\<close> links were
  selected by score, the selection passed on is the selected links followed by the
  candidates whose URL was not selected, taken in their original order until the selection
  has \<open>min_links\<close> elements or the candidates are used up; and when there are at least
  \<open>min_links\<close> candidates, the selection has at least \<open>min min_links N\<close> elements.
\<close>

theorem backfill_reaches_minimum:
  assumes "distinct (map link_url link_data)"
  shows "(let selected = select_by_score budget query link_data
          in (int (length selected) < min_links \<longrightarrow>
                selection_set budget min_links query link_data
                  = selected @ take (nat (min_links - int (length selected)))
                       (filter (\<lambda>l. link_url l \<notin> set (map link_url selected)) link_data)))
       \<and> (min_links \<le> int (length link_data) \<longrightarrow>
            min min_links (int (length link_data))
              \<le> int (length (selection_set budget min_links query link_data)))"
proof -
  let ?sel = "select_by_score budget query link_data"
  let ?rest = "filter (\<lambda>l. link_url l \<notin> set (map link_url ?sel)) link_data"
  have first: "int (length ?sel) < min_links \<Longrightarrow>
      selection_set budget min_links query link_data
        = ?sel @ take (nat (min_links - int (length ?sel))) ?rest"
    by (simp add: selection_set_def backfill_take_filter)
  have second: "min min_links (int (length link_data))
              \<le> int (length (selection_set budget min_links query link_data))"
  proof (cases "int (length ?sel) < min_links")
    case True
    have "length link_data \<le> length ?rest + length ?sel"
      using assms by (rule length_unselected)
    then show ?thesis using True by (simp add: first min_def)
  next
    case False
    then show ?thesis by (simp add: selection_set_def backfill_def)
  qed
  show ?thesis unfolding Let_def using first second by blast
qed

theorem backfill_reaches_minimum_witness:
  "distinct (map link_url example_links)
   \<and> select_by_score 2 ''benefits pay'' example_links = [link_pay]
   \<and> selection_set 2 3 ''benefits pay'' example_links = [link_pay, link_about, link_benefits]
   \<and> min 3 (int (length example_links))
       \<le> int (length (selection_set 2 3 ''benefits pay'' example_links))"
proof -
  have d: "distinct (map link_url example_links)"
    by code_simp
  have s: "select_by_score 2 ''benefits pay'' example_links = [link_pay]"
    by code_simp
  have b: "selection_set 2 3 ''benefits pay'' example_links = [link_pay, link_about, link_benefits]"
    by code_simp
  have n: "(3::int) \<le> int (length example_links)"
    by code_simp
  show ?thesis
    using d s b n backfill_reaches_minimum [OF d, of 2 "''benefits pay''" 3]
    by blast
qed


section \<open>Embedding calls made by the ranking\<close>

lemma calls_link_embedding:
  "link_embedding E l w = (r, w') \<Longrightarrow>
   embed_calls w \<le> embed_calls w' \<and> embed_calls w' \<le> embed_calls w + 1"
  by (auto simp: link_embedding_def embed_document_def EmbeddingCache_save_def write_text_def
           split: option.splits sum.splits)

lemma calls_score_selected:
  "score_selected E qe ls acc w = (r, w') \<Longrightarrow>
   embed_calls w \<le> embed_calls w' \<and> embed_calls w' \<le> embed_calls w + length ls"
proof (induction ls arbitrary: acc w)
  case Nil
  then show ?case by simp
next
  case (Cons l ls)
  obtain r1 w1 where le: "link_embedding E l w = (r1, w1)" by (cases "link_embedding E l w")
  note c1 = calls_link_embedding [OF le]
  show ?case
  proof (cases r1)
    case (Inl e)
    with Cons.prems le c1 show ?thesis by auto
  next
    case (Inr emb)
    show ?thesis
    proof (cases "cosine_similarity E qe emb")
      case (Inl e)
      with Cons.prems le Inr c1 show ?thesis by auto
    next
      case cs: (Inr score)
      with Cons.prems le Inr
      have "score_selected E qe ls (acc @ [(score, link_url l)]) w1 = (r, w')" by simp
      from Cons.IH [OF this] c1 show ?thesis by simp
    qed
  qed
qed

lemma calls_rank_try:
  "rank_try E budget query link_data top_k min_links w = (r, w') \<Longrightarrow>
   embed_calls w' \<le> embed_calls w + 1 + length (selection_set budget min_links query link_data)"
proof -
  assume a: "rank_try E budget query link_data top_k min_links w = (r, w')"
  let ?sel = "selection_set budget min_links query link_data"
  let ?w1 = "w\<lparr>embed_calls := embed_calls w + 1\<rparr>"
  show ?thesis
  proof (cases "provider_embed E (embed_calls w) query")
    case (Inl e)
    with a show ?thesis by (auto simp: rank_try_def embed_query_def)
  next
    case (Inr qe)
    obtain r2 w2 where s: "score_selected E qe ?sel [] ?w1 = (r2, w2)"
      by (cases "score_selected E qe ?sel [] ?w1")
    from calls_score_selected [OF s] have c: "embed_calls w2 \<le> embed_calls w + 1 + length ?sel" by simp
    from a Inr s have "w' = w2"
      by (cases r2) (simp_all add: rank_try_def embed_query_def)
    with c show ?thesis by simp
  qed
qed

lemma world_rank:
  "snd (rank_links_by_query_relevance E budget query link_data top_k min_links w)
     = snd (rank_try E budget query link_data top_k min_links w)"
  by (simp add: rank_links_by_query_relevance_def split: prod.splits sum.splits exn.splits)

lemma length_select_by_score:
  "1 \<le> budget \<Longrightarrow> int (length (select_by_score budget query link_data)) \<le> budget - 1"
  using length_py_slice_to [of "budget - 1" "scored_links query link_data"]
  by (simp add: select_by_score_def)

lemma length_selection_set:
  assumes "1 \<le> budget"
  shows "int (length (selection_set budget min_links query link_data)) \<le> max (budget - 1) min_links"
proof -
  have "int (length (selection_set budget min_links query link_data))
          \<le> max (int (length (select_by_score budget query link_data))) min_links"
    unfolding selection_set_def by (rule length_backfill_le)
  also have "\<dots> \<le> max (budget - 1) min_links"
    using length_select_by_score [OF assms, of query link_data] by linarith
  finally show ?thesis .
qed

text \<open>
  C1, as the code has it. The backfill may select more links than the budget leaves room
  for, so the budget alone does not bound the calls: for a budget of at least one, a
  ranking makes at most \<open>max budget (min_links + 1)\<close> calls to the provider, whatever the
  number of candidates, and at most \<open>budget\<close> calls when \<open>min_links\<close> is below the budget.
\<close>

theorem rank_embedding_calls_bound:
  assumes "1 \<le> budget"
  shows "int (embed_calls (snd (rank_links_by_query_relevance E budget query link_data top_k min_links w)))
           - int (embed_calls w) \<le> max budget (min_links + 1)
       \<and> (min_links < budget \<longrightarrow>
            int (embed_calls (snd (rank_links_by_query_relevance E budget query link_data top_k min_links w)))
              - int (embed_calls w) \<le> budget)"
proof -
  let ?w' = "snd (rank_try E budget query link_data top_k min_links w)"
  have "rank_try E budget query link_data top_k min_links w
          = (fst (rank_try E budget query link_data top_k min_links w), ?w')"
    by simp
  from calls_rank_try [OF this]
  have "int (embed_calls ?w') \<le> int (embed_calls w) + 1
          + int (length (selection_set budget min_links query link_data))"
    by linarith
  with length_selection_set [OF assms, of min_links query link_data]
  have "int (embed_calls ?w') - int (embed_calls w) \<le> max budget (min_links + 1)"
    by linarith
  then show ?thesis by (auto simp: world_rank)
qed

text \<open>
  The budget of 10 with \<open>min_links = 10\<close> and ten candidates: nine links are selected by
  score, the backfill adds the tenth, and eleven calls are made.
\<close>

theorem rank_embedding_calls_bound_counterexample:
  "embed_calls empty_world = 0
   \<and> embed_calls (snd (rank_links_by_query_relevance stub_ext 10 ''benefits'' ten_links 5 10 empty_world)) = 11
   \<and> \<not> int (embed_calls (snd (rank_links_by_query_relevance stub_ext 10 ''benefits'' ten_links 5 10 empty_world)))
         - int (embed_calls empty_world) \<le> 10"
  by code_simp

theorem rank_embedding_calls_bound_witness:
  "(1::int) \<le> 10
   \<and> int (embed_calls (snd (rank_links_by_query_relevance stub_ext 10 ''benefits'' ten_links 5 10 empty_world)))
        - int (embed_calls empty_world) \<le> max 10 (10 + 1)
   \<and> 1 \<le> TOTAL_EMBEDDING_BUDGET \<and> 10 < TOTAL_EMBEDDING_BUDGET
   \<and> int (embed_calls (snd (rank_links_by_query_relevance stub_ext TOTAL_EMBEDDING_BUDGET ''benefits'' ten_links 5 10 empty_world)))
        - int (embed_calls empty_world) \<le> TOTAL_EMBEDDING_BUDGET"
proof -
  have h: "(1::int) \<le> 10" by simp
  have b: "1 \<le> TOTAL_EMBEDDING_BUDGET" "10 < TOTAL_EMBEDDING_BUDGET"
    by (simp_all add: TOTAL_EMBEDDING_BUDGET_def)
  show ?thesis
    using h b
      rank_embedding_calls_bound [OF h, of stub_ext "''benefits''" ten_links 5 10 empty_world]
      rank_embedding_calls_bound [OF b(1), of stub_ext "''benefits''" ten_links 5 10 empty_world]
    by blast
qed


section \<open>The ranking of no candidates\<close>

lemma py_slice_to_Nil: "py_slice_to k [] = []"
  by (simp add: py_slice_to_def)

lemma selection_set_Nil: "selection_set budget min_links query [] = []"
  by (simp add: selection_set_def backfill_def select_by_score_def scored_links_def
        py_sort_reverse_def py_slice_to_Nil)

text \<open>
  C2, as the code has it. For the empty candidate list the ranking returns the empty list
  and writes no file, and it makes exactly one call to the provider: the query is embedded
  before the selected links are looked at.
\<close>

theorem rank_empty_candidates:
  "fst (rank_links_by_query_relevance E budget query [] top_k min_links w) = []
   \<and> embed_calls (snd (rank_links_by_query_relevance E budget query [] top_k min_links w))
       = embed_calls w + 1
   \<and> write_log (snd (rank_links_by_query_relevance E budget query [] top_k min_links w))
       = write_log w"
  by (cases "provider_embed E (embed_calls w) query")
     (simp_all add: rank_links_by_query_relevance_def rank_try_def selection_set_Nil
        embed_query_def py_slice_to_Nil py_sort_reverse_def split: exn.splits)

text \<open>With the stand-in provider the call counter goes from 0 to 1.\<close>

theorem rank_empty_candidates_counterexample:
  "\<not> (fst (rank_links_by_query_relevance stub_ext TOTAL_EMBEDDING_BUDGET ''benefits pay'' [] 20 10 empty_world) = []
      \<and> embed_calls (snd (rank_links_by_query_relevance stub_ext TOTAL_EMBEDDING_BUDGET ''benefits pay'' [] 20 10 empty_world))
          = embed_calls empty_world)"
  by code_simp


section \<open>The loop over the selected links\<close>

lemma link_embedding_cache_first:
  "link_embedding E l w = (Inr emb, w') \<longleftrightarrow> spec_cache_first_embedding E l w emb w'"
  by (auto simp: link_embedding_def spec_cache_first_embedding_def embed_document_def
           split: option.splits sum.splits)

lemma score_selected_in_turn:
  "score_selected E qe ls acc w = (Inr out, w') \<Longrightarrow>
   \<exists>ps. out = acc @ ps \<and> spec_scored_in_turn E qe w ls ps w'"
proof (induction ls arbitrary: acc w)
  case Nil
  then show ?case by simp
next
  case (Cons l ls)
  obtain r1 w1 where le: "link_embedding E l w = (r1, w1)" by (cases "link_embedding E l w")
  from Cons.prems le obtain emb where r1: "r1 = Inr emb" by (cases r1) auto
  from Cons.prems le r1 obtain score where cs: "cosine_similarity E qe emb = Inr score"
    by (cases "cosine_similarity E qe emb") auto
  from Cons.prems le r1 cs
  have "score_selected E qe ls (acc @ [(score, link_url l)]) w1 = (Inr out, w')" by simp
  from Cons.IH [OF this] obtain rest where
    n: "out = (acc @ [(score, link_url l)]) @ rest" "spec_scored_in_turn E qe w1 ls rest w'"
    by blast
  have cf: "spec_cache_first_embedding E l w emb w1"
    using le r1 by (simp add: link_embedding_cache_first)
  have "out = acc @ ((score, link_url l) # rest)" using n(1) by simp
  moreover have "spec_scored_in_turn E qe w (l # ls) ((score, link_url l) # rest) w'"
    using cf cs n(2) by auto
  ultimately show ?case by blast
qed

lemma score_selected_after:
  "spec_scored_in_turn E qe w pre ps wi \<Longrightarrow>
   score_selected E qe (pre @ rest) acc w = score_selected E qe rest (acc @ ps) wi"
proof (induction pre arbitrary: w ps acc)
  case Nil
  then show ?case by simp
next
  case (Cons l pre)
  from Cons.prems obtain emb w1 score tl where
    cf: "spec_cache_first_embedding E l w emb w1" and
    cs: "cosine_similarity E qe emb = Inr score" and
    ps: "ps = (score, link_url l) # tl" and
    t: "spec_scored_in_turn E qe w1 pre tl wi"
    by auto
  have le: "link_embedding E l w = (Inr emb, w1)"
    using cf by (simp add: link_embedding_cache_first)
  have "score_selected E qe ((l # pre) @ rest) acc w
          = score_selected E qe (pre @ rest) (acc @ [(score, link_url l)]) w1"
    using le cs by simp
  also have "\<dots> = score_selected E qe rest ((acc @ [(score, link_url l)]) @ tl) wi"
    by (rule Cons.IH [OF t])
  finally show ?case by (simp add: ps)
qed

lemma score_selected_provider_failure:
  assumes "EmbeddingCache_load E (link_url l) w = None"
      and "provider_embed E (embed_calls w) (link_context l) = Inl e"
  shows "score_selected E qe (l # post) acc w = (Inl e, w\<lparr>embed_calls := embed_calls w + 1\<rparr>)"
  using assms by (simp add: link_embedding_def embed_document_def)

lemma score_selected_similarity_failure:
  assumes "spec_cache_first_embedding E l w emb w1"
      and "cosine_similarity E qe emb = Inl e"
  shows "score_selected E qe (l # post) acc w = (Inl e, w1)"
proof -
  have "link_embedding E l w = (Inr emb, w1)"
    using assms(1) by (simp add: link_embedding_cache_first)
  then show ?thesis using assms(2) by simp
qed

lemma rank_try_unfold:
  assumes "provider_embed E (embed_calls w) query = Inr qe"
  shows "rank_try E budget query link_data top_k min_links w
     = (case score_selected E qe (selection_set budget min_links query link_data) []
               (w\<lparr>embed_calls := embed_calls w + 1\<rparr>) of
          (Inl e, w2) \<Rightarrow> (Inl e, w2)
        | (Inr scored, w2) \<Rightarrow> (Inr (py_slice_to top_k (py_sort_reverse (\<lambda>p. p) scored)), w2))"
  using assms by (simp add: rank_try_def embed_query_def)

lemma rank_of_failure:
  "rank_try E budget query link_data top_k min_links w = (Inl e, w')
   \<Longrightarrow> rank_links_by_query_relevance E budget query link_data top_k min_links w = ([], w')"
  by (cases e) (simp_all add: rank_links_by_query_relevance_def)

lemma rank_try_link_failure:
  assumes qe: "provider_embed E (embed_calls w) query = Inr qe"
      and sel: "selection_set budget min_links query link_data = pre @ l # post"
      and pre: "spec_scored_in_turn E qe (w\<lparr>embed_calls := embed_calls w + 1\<rparr>) pre ps wi"
      and fail: "score_selected E qe (l # post) ([] @ ps) wi = (Inl e, w')"
  shows "rank_try E budget query link_data top_k min_links w = (Inl e, w')"
proof -
  have "score_selected E qe (pre @ l # post) [] (w\<lparr>embed_calls := embed_calls w + 1\<rparr>)
          = (Inl e, w')"
    using score_selected_after [OF pre, of "l # post" "[]"] fail by simp
  then show ?thesis
    by (simp add: rank_try_unfold [OF qe] sel)
qed

lemma sorted_permutation_prefix:
  assumes "0 \<le> k"
  shows "\<exists>rest. mset (py_slice_to k (py_sort_reverse key xs) @ rest) = mset xs
           \<and> sorted_wrt (\<lambda>a b. key b \<le> key a) (py_slice_to k (py_sort_reverse key xs) @ rest)
           \<and> length (py_slice_to k (py_sort_reverse key xs)) = min (nat k) (length xs)"
proof -
  let ?s = "py_sort_reverse key xs"
  have t: "py_slice_to k ?s = take (nat k) ?s"
    using assms by (simp add: py_slice_to_def)
  have "mset (take (nat k) ?s @ drop (nat k) ?s) = mset xs"
    by (simp add: mset_py_sort_reverse)
  moreover have "sorted_wrt (\<lambda>a b. key b \<le> key a) (take (nat k) ?s @ drop (nat k) ?s)"
    by (simp add: sorted_py_sort_reverse)
  moreover have "length (take (nat k) ?s) = min (nat k) (length xs)"
    by (simp add: length_py_sort_reverse min.commute)
  ultimately show ?thesis unfolding t by blast
qed

lemma spec_scored_in_turn_Nil: "spec_scored_in_turn E qe w [] [] w"
  by simp

lemma spec_scored_in_turn_Cons:
  "spec_cache_first_embedding E l w emb w1 \<Longrightarrow> cosine_similarity E qe emb = Inr score \<Longrightarrow>
   spec_scored_in_turn E qe w1 ls rest w' \<Longrightarrow>
   spec_scored_in_turn E qe w (l # ls) ((score, link_url l) # rest) w'"
  by auto

lemma spec_scored_in_turn_urls:
  "spec_scored_in_turn E qe w ls ps w' \<Longrightarrow> map snd ps = map link_url ls"
  by (induction ls arbitrary: w ps) auto

lemma rank_try_success:
  assumes "fst (rank_try E budget query link_data top_k min_links w) = Inr top_links"
  shows "\<exists>qe scored w'. provider_embed E (embed_calls w) query = Inr qe
           \<and> top_links = py_slice_to top_k (py_sort_reverse (\<lambda>p. p) scored)
           \<and> rank_try E budget query link_data top_k min_links w = (Inr top_links, w')
           \<and> spec_scored_in_turn E qe (w\<lparr>embed_calls := embed_calls w + 1\<rparr>)
                (selection_set budget min_links query link_data) scored w'"
proof -
  let ?sel = "selection_set budget min_links query link_data"
  let ?w1 = "w\<lparr>embed_calls := embed_calls w + 1\<rparr>"
  from assms obtain qe where qe: "provider_embed E (embed_calls w) query = Inr qe"
    by (cases "provider_embed E (embed_calls w) query") (auto simp: rank_try_def embed_query_def)
  obtain r2 w2 where s: "score_selected E qe ?sel [] ?w1 = (r2, w2)"
    by (cases "score_selected E qe ?sel [] ?w1")
  from assms s obtain scored where r2: "r2 = Inr scored"
    by (cases r2) (auto simp: rank_try_unfold [OF qe])
  from assms s r2 have t: "top_links = py_slice_to top_k (py_sort_reverse (\<lambda>p. p) scored)"
    by (simp add: rank_try_unfold [OF qe])
  from s r2 t have whole: "rank_try E budget query link_data top_k min_links w = (Inr top_links, w2)"
    by (simp add: rank_try_unfold [OF qe])
  from score_selected_in_turn [OF s [unfolded r2]]
  have "spec_scored_in_turn E qe ?w1 ?sel scored w2" by simp
  with qe t whole show ?thesis by blast
qed

lemma rank_cases:
  "fst (rank_links_by_query_relevance E budget query link_data top_k min_links w)
     = (case fst (rank_try E budget query link_data top_k min_links w) of
          Inl e \<Rightarrow> [] | Inr top_links \<Rightarrow> map snd top_links)"
  by (simp add: rank_links_by_query_relevance_def split: prod.splits sum.splits exn.splits)

lemma link_embedding_failure:
  "link_embedding E l w = (Inl e, w') \<Longrightarrow>
   EmbeddingCache_load E (link_url l) w = None
   \<and> provider_embed E (embed_calls w) (link_context l) = Inl e"
  by (auto simp: link_embedding_def embed_document_def split: option.splits sum.splits)

lemma score_selected_failure_place:
  "score_selected E qe ls acc w = (Inl e, w') \<Longrightarrow>
   \<exists>pre l post ps wi.
      ls = pre @ l # post
    \<and> spec_scored_in_turn E qe w pre ps wi
    \<and> ((EmbeddingCache_load E (link_url l) wi = None
          \<and> provider_embed E (embed_calls wi) (link_context l) = Inl e)
       \<or> (\<exists>emb wj. spec_cache_first_embedding E l wi emb wj
             \<and> cosine_similarity E qe emb = Inl e))"
proof (induction ls arbitrary: acc w)
  case Nil
  then show ?case by simp
next
  case (Cons l ls)
  obtain r1 w1 where le: "link_embedding E l w = (r1, w1)" by (cases "link_embedding E l w")
  show ?case
  proof (cases r1)
    case (Inl e1)
    with Cons.prems le have "e1 = e" by simp
    with le Inl have "EmbeddingCache_load E (link_url l) w = None
        \<and> provider_embed E (embed_calls w) (link_context l) = Inl e"
      by (auto dest: link_embedding_failure)
    moreover have "l # ls = [] @ l # ls" by simp
    moreover have "spec_scored_in_turn E qe w [] [] w" by simp
    ultimately show ?thesis by blast
  next
    case (Inr emb)
    with le have cf: "spec_cache_first_embedding E l w emb w1"
      by (simp add: link_embedding_cache_first)
    show ?thesis
    proof (cases "cosine_similarity E qe emb")
      case (Inl e1)
      with Cons.prems le Inr have "e1 = e" by simp
      with Inl cf have "\<exists>emb wj. spec_cache_first_embedding E l w emb wj
             \<and> cosine_similarity E qe emb = Inl e" by blast
      moreover have "l # ls = [] @ l # ls" by simp
      moreover have "spec_scored_in_turn E qe w [] [] w" by simp
      ultimately show ?thesis by blast
    next
      case cs: (Inr score)
      with Cons.prems le Inr
      have "score_selected E qe ls (acc @ [(score, link_url l)]) w1 = (Inl e, w')" by simp
      from Cons.IH [OF this] obtain pre l' post ps wi where
        p: "ls = pre @ l' # post" "spec_scored_in_turn E qe w1 pre ps wi"
           "(EmbeddingCache_load E (link_url l') wi = None
              \<and> provider_embed E (embed_calls wi) (link_context l') = Inl e)
            \<or> (\<exists>emb wj. spec_cache_first_embedding E l' wi emb wj
                  \<and> cosine_similarity E qe emb = Inl e)"
        by blast
      have "l # ls = (l # pre) @ l' # post" using p(1) by simp
      moreover have "spec_scored_in_turn E qe w (l # pre) ((score, link_url l) # ps) wi"
        using cf cs p(2) by (rule spec_scored_in_turn_Cons)
      ultimately show ?thesis using p(3) by blast
    qed
  qed
qed

lemma first_link_scored:
  assumes "EmbeddingCache_load E (link_url link_pay)
             (empty_world\<lparr>embed_calls := embed_calls empty_world + 1\<rparr>) = None"
      and "provider_embed E (embed_calls (empty_world\<lparr>embed_calls := embed_calls empty_world + 1\<rparr>))
             (link_context link_pay) = Inr [1, 0]"
      and "cosine_similarity E qe [1, 0] = Inr score"
  shows "spec_scored_in_turn E qe (empty_world\<lparr>embed_calls := embed_calls empty_world + 1\<rparr>)
           [link_pay] [(score, link_url link_pay)] (after_first_link E)"
proof -
  have "spec_cache_first_embedding E link_pay (empty_world\<lparr>embed_calls := embed_calls empty_world + 1\<rparr>)
          [1, 0] (after_first_link E)"
    using assms(1,2) by (simp add: spec_cache_first_embedding_def after_first_link_def Let_def)
  then show ?thesis
    using assms(3) spec_scored_in_turn_Nil by (rule spec_scored_in_turn_Cons)
qed


section \<open>Failures inside the ranking\<close>

text \<open>
  C6. Whatever raises inside the ranking, the ranking returns the empty list: the call
  that embeds the query; the call that embeds a selected link, at any place in the
  selection, after the links before it were embedded and scored; the similarity of a
  selected link, at any place; and, in general, any exception that leaves the body of the
  \<^verbatim>\<open>try\<close> block. An exception that leaves the body was raised at one of these
  places.
\<close>

theorem rank_returns_empty_on_failure:
  "(provider_embed E (embed_calls w) query = Inl e \<longrightarrow>
      fst (rank_links_by_query_relevance E budget query link_data top_k min_links w) = [])
   \<and> (provider_embed E (embed_calls w) query = Inr qe
        \<and> selection_set budget min_links query link_data = pre @ l # post
        \<and> spec_scored_in_turn E qe (w\<lparr>embed_calls := embed_calls w + 1\<rparr>) pre ps wi
        \<and> EmbeddingCache_load E (link_url l) wi = None
        \<and> provider_embed E (embed_calls wi) (link_context l) = Inl e \<longrightarrow>
      fst (rank_links_by_query_relevance E budget query link_data top_k min_links w) = [])
   \<and> (provider_embed E (embed_calls w) query = Inr qe
        \<and> selection_set budget min_links query link_data = pre @ l # post
        \<and> spec_scored_in_turn E qe (w\<lparr>embed_calls := embed_calls w + 1\<rparr>) pre ps wi
        \<and> spec_cache_first_embedding E l wi emb wj
        \<and> cosine_similarity E qe emb = Inl e \<longrightarrow>
      fst (rank_links_by_query_relevance E budget query link_data top_k min_links w) = [])
   \<and> (fst (rank_try E budget query link_data top_k min_links w) = Inl e \<longrightarrow>
      fst (rank_links_by_query_relevance E budget query link_data top_k min_links w) = [])
   \<and> (fst (rank_try E budget query link_data top_k min_links w) = Inl e \<longrightarrow>
      provider_embed E (embed_calls w) query = Inl e
      \<or> (\<exists>qe pre l post ps wi.
            provider_embed E (embed_calls w) query = Inr qe
          \<and> selection_set budget min_links query link_data = pre @ l # post
          \<and> spec_scored_in_turn E qe (w\<lparr>embed_calls := embed_calls w + 1\<rparr>) pre ps wi
          \<and> ((EmbeddingCache_load E (link_url l) wi = None
                \<and> provider_embed E (embed_calls wi) (link_context l) = Inl e)
             \<or> (\<exists>emb wj. spec_cache_first_embedding E l wi emb wj
                   \<and> cosine_similarity E qe emb = Inl e))))"
proof -
  have handler: "fst (rank_links_by_query_relevance E budget query link_data top_k min_links w) = []"
    if "fst (rank_try E budget query link_data top_k min_links w) = Inl e"
    using that by (simp add: rank_cases)
  have query: "fst (rank_try E budget query link_data top_k min_links w) = Inl e"
    if "provider_embed E (embed_calls w) query = Inl e"
    using that by (simp add: rank_try_def embed_query_def)
  have document: "fst (rank_try E budget query link_data top_k min_links w) = Inl e"
    if "provider_embed E (embed_calls w) query = Inr qe"
       "selection_set budget min_links query link_data = pre @ l # post"
       "spec_scored_in_turn E qe (w\<lparr>embed_calls := embed_calls w + 1\<rparr>) pre ps wi"
       "EmbeddingCache_load E (link_url l) wi = None"
       "provider_embed E (embed_calls wi) (link_context l) = Inl e"
    using rank_try_link_failure [OF that(1,2,3) score_selected_provider_failure [OF that(4,5)]]
    by simp
  have similarity: "fst (rank_try E budget query link_data top_k min_links w) = Inl e"
    if "provider_embed E (embed_calls w) query = Inr qe"
       "selection_set budget min_links query link_data = pre @ l # post"
       "spec_scored_in_turn E qe (w\<lparr>embed_calls := embed_calls w + 1\<rparr>) pre ps wi"
       "spec_cache_first_embedding E l wi emb wj"
       "cosine_similarity E qe emb = Inl e"
    using rank_try_link_failure [OF that(1,2,3) score_selected_similarity_failure [OF that(4,5)]]
    by simp
  have place: "provider_embed E (embed_calls w) query = Inl e
      \<or> (\<exists>qe pre l post ps wi.
            provider_embed E (embed_calls w) query = Inr qe
          \<and> selection_set budget min_links query link_data = pre @ l # post
          \<and> spec_scored_in_turn E qe (w\<lparr>embed_calls := embed_calls w + 1\<rparr>) pre ps wi
          \<and> ((EmbeddingCache_load E (link_url l) wi = None
                \<and> provider_embed E (embed_calls wi) (link_context l) = Inl e)
             \<or> (\<exists>emb wj. spec_cache_first_embedding E l wi emb wj
                   \<and> cosine_similarity E qe emb = Inl e)))"
    if a: "fst (rank_try E budget query link_data top_k min_links w) = Inl e"
  proof (cases "provider_embed E (embed_calls w) query")
    case (Inl e')
    with a show ?thesis by (simp add: rank_try_def embed_query_def)
  next
    case (Inr qe)
    let ?sel = "selection_set budget min_links query link_data"
    let ?w1 = "w\<lparr>embed_calls := embed_calls w + 1\<rparr>"
    obtain r2 w2 where s: "score_selected E qe ?sel [] ?w1 = (r2, w2)"
      by (cases "score_selected E qe ?sel [] ?w1")
    from a s have "r2 = Inl e"
      by (cases r2) (simp_all add: rank_try_unfold [OF Inr])
    with s have "score_selected E qe ?sel [] ?w1 = (Inl e, w2)" by simp
    from score_selected_failure_place [OF this] Inr show ?thesis by blast
  qed
  from handler query document similarity place show ?thesis by blast
qed

theorem rank_returns_empty_on_failure_witness:
  "provider_embed (failing_at 0 Unauthorized) (embed_calls empty_world) ''benefits pay'' = Inl Unauthorized
   \<and> fst (rank_links_by_query_relevance (failing_at 0 Unauthorized) TOTAL_EMBEDDING_BUDGET
            ''benefits pay'' example_links 20 10 empty_world) = []
   \<and> provider_embed (failing_at 2 Forbidden) (embed_calls empty_world) ''benefits pay'' = Inr [1, 0]
   \<and> selection_set TOTAL_EMBEDDING_BUDGET 10 ''benefits pay'' example_links
       = [link_pay] @ link_benefits # [link_about]
   \<and> spec_scored_in_turn (failing_at 2 Forbidden) [1, 0]
        (empty_world\<lparr>embed_calls := embed_calls empty_world + 1\<rparr>)
        [link_pay] [(1, link_url link_pay)] (after_first_link (failing_at 2 Forbidden))
   \<and> EmbeddingCache_load (failing_at 2 Forbidden) (link_url link_benefits)
        (after_first_link (failing_at 2 Forbidden)) = None
   \<and> provider_embed (failing_at 2 Forbidden) (embed_calls (after_first_link (failing_at 2 Forbidden)))
        (link_context link_benefits) = Inl Forbidden
   \<and> fst (rank_links_by_query_relevance (failing_at 2 Forbidden) TOTAL_EMBEDDING_BUDGET
            ''benefits pay'' example_links 20 10 empty_world) = []
   \<and> provider_embed broken_similarity (embed_calls empty_world) ''benefits pay'' = Inr [1, 0]
   \<and> spec_cache_first_embedding broken_similarity link_pay
        (empty_world\<lparr>embed_calls := embed_calls empty_world + 1\<rparr>) [1, 0]
        (after_first_link broken_similarity)
   \<and> cosine_similarity broken_similarity [1, 0] [1, 0] = Inl (OtherError ''Input contains NaN'')
   \<and> fst (rank_links_by_query_relevance broken_similarity TOTAL_EMBEDDING_BUDGET
            ''benefits pay'' example_links 20 10 empty_world) = []
   \<and> fst (rank_try (failing_at 1 Forbidden) TOTAL_EMBEDDING_BUDGET
            ''benefits pay'' example_links 20 10 empty_world) = Inl Forbidden
   \<and> fst (rank_links_by_query_relevance (failing_at 1 Forbidden) TOTAL_EMBEDDING_BUDGET
            ''benefits pay'' example_links 20 10 empty_world) = []
   \<and> (provider_embed (failing_at 1 Forbidden) (embed_calls empty_world) ''benefits pay'' = Inl Forbidden
      \<or> (\<exists>qe pre l post ps wi.
            provider_embed (failing_at 1 Forbidden) (embed_calls empty_world) ''benefits pay'' = Inr qe
          \<and> selection_set TOTAL_EMBEDDING_BUDGET 10 ''benefits pay'' example_links = pre @ l # post
          \<and> spec_scored_in_turn (failing_at 1 Forbidden) qe
               (empty_world\<lparr>embed_calls := embed_calls empty_world + 1\<rparr>) pre ps wi
          \<and> ((EmbeddingCache_load (failing_at 1 Forbidden) (link_url l) wi = None
                \<and> provider_embed (failing_at 1 Forbidden) (embed_calls wi) (link_context l) = Inl Forbidden)
             \<or> (\<exists>emb wj. spec_cache_first_embedding (failing_at 1 Forbidden) l wi emb wj
                   \<and> cosine_similarity (failing_at 1 Forbidden) qe emb = Inl Forbidden))))"
proof -
  let ?w1 = "empty_world\<lparr>embed_calls := embed_calls empty_world + 1\<rparr>"
  have a: "provider_embed (failing_at 0 Unauthorized) (embed_calls empty_world) ''benefits pay'' = Inl Unauthorized"
    by code_simp
  have q: "provider_embed (failing_at 2 Forbidden) (embed_calls empty_world) ''benefits pay'' = Inr [1, 0]"
    by code_simp
  have sel: "selection_set TOTAL_EMBEDDING_BUDGET 10 ''benefits pay'' example_links
       = [link_pay] @ link_benefits # [link_about]"
    by code_simp
  have p1: "EmbeddingCache_load (failing_at 2 Forbidden) (link_url link_pay) ?w1 = None"
    by code_simp
  have p2: "provider_embed (failing_at 2 Forbidden) (embed_calls ?w1) (link_context link_pay) = Inr [1, 0]"
    by code_simp
  have p3: "cosine_similarity (failing_at 2 Forbidden) [1, 0] [1, 0] = Inr 1"
    by code_simp
  note pre = first_link_scored [OF p1 p2 p3]
  have miss: "EmbeddingCache_load (failing_at 2 Forbidden) (link_url link_benefits)
        (after_first_link (failing_at 2 Forbidden)) = None"
    by code_simp
  have fail: "provider_embed (failing_at 2 Forbidden) (embed_calls (after_first_link (failing_at 2 Forbidden)))
        (link_context link_benefits) = Inl Forbidden"
    by code_simp
  have bq: "provider_embed broken_similarity (embed_calls empty_world) ''benefits pay'' = Inr [1, 0]"
    by code_simp
  have sel0: "selection_set TOTAL_EMBEDDING_BUDGET 10 ''benefits pay'' example_links
       = [] @ link_pay # [link_benefits, link_about]"
    by code_simp
  have b1: "EmbeddingCache_load broken_similarity (link_url link_pay) ?w1 = None"
    by code_simp
  have b2: "provider_embed broken_similarity (embed_calls ?w1) (link_context link_pay) = Inr [1, 0]"
    by code_simp
  have bc: "spec_cache_first_embedding broken_similarity link_pay ?w1 [1, 0] (after_first_link broken_similarity)"
    using b1 b2 by (simp add: spec_cache_first_embedding_def after_first_link_def Let_def)
  have bs: "cosine_similarity broken_similarity [1, 0] [1, 0] = Inl (OtherError ''Input contains NaN'')"
    by code_simp
  have b0: "spec_scored_in_turn broken_similarity [1, 0] ?w1 [] [] ?w1"
    by simp
  have h: "fst (rank_try (failing_at 1 Forbidden) TOTAL_EMBEDDING_BUDGET
            ''benefits pay'' example_links 20 10 empty_world) = Inl Forbidden"
    by code_simp
  note t1 = rank_returns_empty_on_failure
    [where E = "failing_at 0 Unauthorized" and w = empty_world and query = "''benefits pay''"
       and e = Unauthorized and budget = TOTAL_EMBEDDING_BUDGET and link_data = example_links
       and top_k = 20 and min_links = 10]
  note t2 = rank_returns_empty_on_failure
    [where E = "failing_at 2 Forbidden" and w = empty_world and query = "''benefits pay''"
       and e = Forbidden and budget = TOTAL_EMBEDDING_BUDGET and link_data = example_links
       and top_k = 20 and min_links = 10 and qe = "[1, 0]" and pre = "[link_pay]"
       and l = link_benefits and post = "[link_about]" and ps = "[(1, link_url link_pay)]"
       and wi = "after_first_link (failing_at 2 Forbidden)"]
  note t3 = rank_returns_empty_on_failure
    [where E = broken_similarity and w = empty_world and query = "''benefits pay''"
       and e = "OtherError ''Input contains NaN''" and budget = TOTAL_EMBEDDING_BUDGET
       and link_data = example_links and top_k = 20 and min_links = 10 and qe = "[1, 0]"
       and pre = "[]" and l = link_pay and post = "[link_benefits, link_about]" and ps = "[]"
       and wi = ?w1 and emb = "[1, 0]" and wj = "after_first_link broken_similarity"]
  note t4 = rank_returns_empty_on_failure
    [where E = "failing_at 1 Forbidden" and w = empty_world and query = "''benefits pay''"
       and e = Forbidden and budget = TOTAL_EMBEDDING_BUDGET and link_data = example_links
       and top_k = 20 and min_links = 10]
  from t1 a have r1: "fst (rank_links_by_query_relevance (failing_at 0 Unauthorized) TOTAL_EMBEDDING_BUDGET
            ''benefits pay'' example_links 20 10 empty_world) = []" by blast
  from t2 q sel pre miss fail have r2: "fst (rank_links_by_query_relevance (failing_at 2 Forbidden) TOTAL_EMBEDDING_BUDGET
            ''benefits pay'' example_links 20 10 empty_world) = []" by blast
  from t3 bq sel0 b0 bc bs have r3: "fst (rank_links_by_query_relevance broken_similarity TOTAL_EMBEDDING_BUDGET
            ''benefits pay'' example_links 20 10 empty_world) = []" by blast
  from t4 h have r4: "fst (rank_links_by_query_relevance (failing_at 1 Forbidden) TOTAL_EMBEDDING_BUDGET
            ''benefits pay'' example_links 20 10 empty_world) = []" by blast
  from t4 h have r5: "(provider_embed (failing_at 1 Forbidden) (embed_calls empty_world) ''benefits pay'' = Inl Forbidden
      \<or> (\<exists>qe pre l post ps wi.
            provider_embed (failing_at 1 Forbidden) (embed_calls empty_world) ''benefits pay'' = Inr qe
          \<and> selection_set TOTAL_EMBEDDING_BUDGET 10 ''benefits pay'' example_links = pre @ l # post
          \<and> spec_scored_in_turn (failing_at 1 Forbidden) qe
               (empty_world\<lparr>embed_calls := embed_calls empty_world + 1\<rparr>) pre ps wi
          \<and> ((EmbeddingCache_load (failing_at 1 Forbidden) (link_url l) wi = None
                \<and> provider_embed (failing_at 1 Forbidden) (embed_calls wi) (link_context l) = Inl Forbidden)
             \<or> (\<exists>emb wj. spec_cache_first_embedding (failing_at 1 Forbidden) l wi emb wj
                   \<and> cosine_similarity (failing_at 1 Forbidden) qe emb = Inl Forbidden))))"
    by blast
  from a r1 q sel pre miss fail r2 bq bc bs r3 h r4 r5 show ?thesis by blast
qed


section \<open>The order of the ranking\<close>

lemma set_select_by_score: "set (select_by_score budget query link_data) \<subseteq> set link_data"
proof -
  have "set (select_by_score budget query link_data) \<subseteq> snd ` set (scored_links query link_data)"
    using set_py_slice_to [of "budget - 1" "scored_links query link_data"]
    by (auto simp: select_by_score_def)
  also have "\<dots> \<subseteq> set link_data"
    by (auto simp: scored_links_def set_py_sort_reverse)
  finally show ?thesis .
qed

lemma set_backfill: "set (backfill m link_data selected) \<subseteq> set selected \<union> set link_data"
proof (cases "int (length selected) < m")
  case True
  then show ?thesis by (auto simp: backfill_take_filter dest: in_set_takeD)
next
  case False
  then show ?thesis by (simp add: backfill_def)
qed

lemma set_selection_set: "set (selection_set budget min_links query link_data) \<subseteq> set link_data"
  using set_backfill [of min_links link_data "select_by_score budget query link_data"]
        set_select_by_score [of budget query link_data]
  by (auto simp: selection_set_def)

text \<open>
  C3, as the code has it. For a non-negative \<open>top_k\<close>: every returned URL is the URL of a
  candidate and at most \<open>top_k\<close> URLs are returned. When the ranking does not fail, the
  selected links were embedded cache-first in turn, each scored by the similarity of the
  query embedding and its own vector, and the returned URLs are those of the first
  \<open>min top_k n\<close> of these \<open>n\<close> (score, url) pairs when the pairs are put in descending order
  of score and, among equal scores, in descending string order of the URL.
\<close>

theorem rank_output_order:
  assumes "0 \<le> top_k"
  shows "set (fst (rank_links_by_query_relevance E budget query link_data top_k min_links w))
           \<subseteq> link_url ` set link_data
       \<and> int (length (fst (rank_links_by_query_relevance E budget query link_data top_k min_links w)))
           \<le> top_k
       \<and> (\<forall>top_links. fst (rank_try E budget query link_data top_k min_links w) = Inr top_links \<longrightarrow>
             fst (rank_links_by_query_relevance E budget query link_data top_k min_links w)
               = map snd top_links
           \<and> (\<exists>qe scored w' rest.
                 provider_embed E (embed_calls w) query = Inr qe
               \<and> spec_scored_in_turn E qe (w\<lparr>embed_calls := embed_calls w + 1\<rparr>)
                    (selection_set budget min_links query link_data) scored w'
               \<and> map snd scored = map link_url (selection_set budget min_links query link_data)
               \<and> mset (top_links @ rest) = mset scored
               \<and> sorted_wrt (\<lambda>p q. fst q < fst p \<or> (fst q = fst p \<and> snd q \<le> snd p))
                    (top_links @ rest)
               \<and> length top_links = min (nat top_k) (length scored)))"
proof (cases "fst (rank_try E budget query link_data top_k min_links w)")
  case (Inl e)
  then show ?thesis using assms by (simp add: rank_cases)
next
  case (Inr top_links)
  let ?sel = "selection_set budget min_links query link_data"
  let ?R = "\<lambda>p q :: real \<times> string. fst q < fst p \<or> (fst q = fst p \<and> snd q \<le> snd p)"
  from rank_try_success [OF Inr] obtain qe scored w' where
    qe: "provider_embed E (embed_calls w) query = Inr qe" and
    t: "top_links = py_slice_to top_k (py_sort_reverse (\<lambda>p. p) scored)" and
    turn: "spec_scored_in_turn E qe (w\<lparr>embed_calls := embed_calls w + 1\<rparr>) ?sel scored w'"
    by blast
  have urls: "map snd scored = map link_url ?sel"
    using turn by (rule spec_scored_in_turn_urls)
  from sorted_permutation_prefix [OF assms, of "\<lambda>p. p" scored] obtain rest where
    m: "mset (top_links @ rest) = mset scored" and
    s0: "sorted_wrt (\<lambda>p q. q \<le> p) (top_links @ rest)" and
    n: "length top_links = min (nat top_k) (length scored)"
    unfolding t by blast
  from s0 have s: "sorted_wrt ?R (top_links @ rest)"
    by (rule sorted_wrt_mono_rel [rotated]) (auto simp: less_eq_prod_def)
  have out: "fst (rank_links_by_query_relevance E budget query link_data top_k min_links w)
               = map snd top_links"
    using Inr by (simp add: rank_cases)
  have "set top_links \<subseteq> set scored"
    using m by (metis set_mset_mset set_append Un_upper1)
  then have "snd ` set top_links \<subseteq> set (map snd scored)" by auto
  also have "\<dots> = link_url ` set ?sel" by (simp add: urls)
  also have "\<dots> \<subseteq> link_url ` set link_data"
    using set_selection_set [of budget min_links query link_data] by blast
  finally have subset: "set (map snd top_links) \<subseteq> link_url ` set link_data" by simp
  have len: "int (length (map snd top_links)) \<le> top_k"
    using n assms by simp
  have ex: "\<exists>qe scored w' rest.
                 provider_embed E (embed_calls w) query = Inr qe
               \<and> spec_scored_in_turn E qe (w\<lparr>embed_calls := embed_calls w + 1\<rparr>) ?sel scored w'
               \<and> map snd scored = map link_url ?sel
               \<and> mset (top_links @ rest) = mset scored
               \<and> sorted_wrt ?R (top_links @ rest)
               \<and> length top_links = min (nat top_k) (length scored)"
    using qe turn urls m s n by blast
  show ?thesis
    using Inr out subset len ex by simp
qed

text \<open>
  Two candidates with the same similarity come out in descending order of their URLs, the
  reverse of the order in which they were selected; and a negative \<open>top_k\<close> cuts from the
  end of the list.
\<close>

theorem rank_output_order_counterexample:
  "selection_set TOTAL_EMBEDDING_BUDGET 10 ''benefits pay'' [link_about, link_contact]
     = [link_about, link_contact]
   \<and> fst (rank_try stub_ext TOTAL_EMBEDDING_BUDGET ''benefits pay'' [link_about, link_contact] 20 10 empty_world)
     = Inr [(0, ''http://h/d''), (0, ''http://h/a'')]
   \<and> fst (rank_links_by_query_relevance stub_ext TOTAL_EMBEDDING_BUDGET ''benefits pay''
            [link_about, link_contact] 20 10 empty_world)
     = [''http://h/d'', ''http://h/a'']
   \<and> \<not> int (length (fst (rank_links_by_query_relevance stub_ext TOTAL_EMBEDDING_BUDGET ''benefits pay''
            example_links (- 1) 10 empty_world))) \<le> - 1"
  by code_simp

theorem rank_output_order_witness:
  "(0::int) \<le> 2
   \<and> fst (rank_try stub_ext TOTAL_EMBEDDING_BUDGET ''benefits pay'' example_links 2 10 empty_world)
       = Inr [(1, ''http://h/c''), (3 / 5, ''http://h/b'')]
   \<and> fst (rank_links_by_query_relevance stub_ext TOTAL_EMBEDDING_BUDGET ''benefits pay'' example_links 2 10 empty_world)
       = [''http://h/c'', ''http://h/b'']
   \<and> set (fst (rank_links_by_query_relevance stub_ext TOTAL_EMBEDDING_BUDGET ''benefits pay'' example_links 2 10 empty_world))
       \<subseteq> link_url ` set example_links
   \<and> int (length (fst (rank_links_by_query_relevance stub_ext TOTAL_EMBEDDING_BUDGET ''benefits pay'' example_links 2 10 empty_world)))
       \<le> 2
   \<and> (\<exists>qe scored w' rest.
         provider_embed stub_ext (embed_calls empty_world) ''benefits pay'' = Inr qe
       \<and> spec_scored_in_turn stub_ext qe (empty_world\<lparr>embed_calls := embed_calls empty_world + 1\<rparr>)
            (selection_set TOTAL_EMBEDDING_BUDGET 10 ''benefits pay'' example_links) scored w'
       \<and> map snd scored
           = map link_url (selection_set TOTAL_EMBEDDING_BUDGET 10 ''benefits pay'' example_links)
       \<and> mset ([(1, ''http://h/c''), (3 / 5, ''http://h/b'')] @ rest) = mset scored
       \<and> sorted_wrt (\<lambda>p q. fst q < fst p \<or> (fst q = fst p \<and> snd q \<le> snd p))
            ([(1, ''http://h/c''), (3 / 5, ''http://h/b'')] @ rest)
       \<and> length [(1::real, ''http://h/c''), (3 / 5, ''http://h/b'')] = min (nat 2) (length scored))"
proof -
  have h: "(0::int) \<le> 2" by simp
  have t: "fst (rank_try stub_ext TOTAL_EMBEDDING_BUDGET ''benefits pay'' example_links 2 10 empty_world)
       = Inr [(1, ''http://h/c''), (3 / 5, ''http://h/b'')]"
    by code_simp
  have r: "fst (rank_links_by_query_relevance stub_ext TOTAL_EMBEDDING_BUDGET ''benefits pay'' example_links 2 10 empty_world)
       = [''http://h/c'', ''http://h/b'']"
    by code_simp
  note o = rank_output_order [OF h, of stub_ext TOTAL_EMBEDDING_BUDGET "''benefits pay''" example_links 10 empty_world]
  from o have 1: "set (fst (rank_links_by_query_relevance stub_ext TOTAL_EMBEDDING_BUDGET ''benefits pay'' example_links 2 10 empty_world))
       \<subseteq> link_url ` set example_links" by blast
  from o have 2: "int (length (fst (rank_links_by_query_relevance stub_ext TOTAL_EMBEDDING_BUDGET ''benefits pay'' example_links 2 10 empty_world)))
       \<le> 2" by blast
  from o t have 3: "\<exists>qe scored w' rest.
         provider_embed stub_ext (embed_calls empty_world) ''benefits pay'' = Inr qe
       \<and> spec_scored_in_turn stub_ext qe (empty_world\<lparr>embed_calls := embed_calls empty_world + 1\<rparr>)
            (selection_set TOTAL_EMBEDDING_BUDGET 10 ''benefits pay'' example_links) scored w'
       \<and> map snd scored
           = map link_url (selection_set TOTAL_EMBEDDING_BUDGET 10 ''benefits pay'' example_links)
       \<and> mset ([(1, ''http://h/c''), (3 / 5, ''http://h/b'')] @ rest) = mset scored
       \<and> sorted_wrt (\<lambda>p q. fst q < fst p \<or> (fst q = fst p \<and> snd q \<le> snd p))
            ([(1, ''http://h/c''), (3 / 5, ''http://h/b'')] @ rest)
       \<and> length [(1::real, ''http://h/c''), (3 / 5, ''http://h/b'')] = min (nat 2) (length scored)"
    by blast
  from h t r 1 2 3 show ?thesis by blast
qed


section \<open>The caches\<close>

lemma universal_newlines_no_cr: "CHR 0x0D \<notin> set s \<Longrightarrow> universal_newlines s = s"
  by (induction s rule: universal_newlines.induct) auto

lemma universal_newlines_empty: "universal_newlines s = [] \<longleftrightarrow> s = []"
  by (induction s rule: universal_newlines.induct) auto

lemma PageCache_load_save:
  "PageCache_load E u (PageCache_save E u text w) = Some (universal_newlines text)"
  by (simp add: PageCache_load_def PageCache_save_def write_text_def read_text_def)

lemma PageCache_round_trip:
  "CHR 0x0D \<notin> set text \<Longrightarrow> PageCache_load E u (PageCache_save E u text w) = Some text"
  by (simp add: PageCache_load_save universal_newlines_no_cr)

lemma PageCache_load_absent:
  "files w (page_path E u) = None \<or> files w (page_path E u) = Some Undecodable
   \<Longrightarrow> PageCache_load E u w = None"
  by (auto simp: PageCache_load_def read_text_def)

lemma EmbeddingCache_round_trip:
  "json_load E (universal_newlines (json_dump E v)) = Inr v
   \<Longrightarrow> EmbeddingCache_load E u (EmbeddingCache_save E u v w) = Some v"
  by (simp add: EmbeddingCache_load_def EmbeddingCache_save_def write_text_def read_text_def)

lemma EmbeddingCache_load_absent:
  "files w (embedding_path E u) = None \<or> files w (embedding_path E u) = Some Undecodable
   \<or> (\<exists>s e. files w (embedding_path E u) = Some (Text s) \<and> json_load E (universal_newlines s) = Inl e)
   \<Longrightarrow> EmbeddingCache_load E u w = None"
  by (auto simp: EmbeddingCache_load_def read_text_def)

text \<open>
  C7. A page text that holds a carriage return does not come back as it was saved: the
  file is read with universal newlines, so the carriage return is loaded as a line feed.
  (The lemmas above give what does hold: a page text without carriage returns comes back
  unchanged, an embedding comes back whenever its JSON text parses back to it, and a missing
  or unreadable file is loaded as \<open>None\<close>.)
\<close>

theorem PageCache_carriage_return:
  "PageCache_load stub_ext ''http://h/a''
     (PageCache_save stub_ext ''http://h/a'' [CHR ''a'', CHR 0x0D, CHR ''b''] empty_world)
     = Some [CHR ''a'', CHR 0x0A, CHR ''b'']
   \<and> PageCache_load stub_ext ''http://h/a''
     (PageCache_save stub_ext ''http://h/a'' [CHR ''a'', CHR 0x0D, CHR ''b''] empty_world)
     \<noteq> Some [CHR ''a'', CHR 0x0D, CHR ''b'']"
  by (simp add: PageCache_load_save)


section \<open>Loading the same page twice\<close>

lemma load_from_web_success:
  assumes "web_load E (page_fetches w) u = Inr docs"
  shows "load_from_web E u w
           = (split_documents E docs,
              PageCache_save E u (py_join [CHR 0x0A, CHR 0x0A] (map page_content docs))
                (w\<lparr>page_fetches := page_fetches w + 1\<rparr>))"
  using assms by (simp add: load_from_web_def Let_def)

text \<open>
  C8, as the code has it. For a URL that is not in the page cache and whose request
  succeeds with a text that is not empty, two calls of \<^verbatim>\<open>load_single_url\<close> make one
  network request and one write, to the page file of the URL; the second call changes
  nothing and returns the chunks of the cached text.
\<close>

theorem load_single_url_twice:
  assumes "PageCache_load E u w = None"
      and "web_load E (page_fetches w) u = Inr docs"
      and "py_join [CHR 0x0A, CHR 0x0A] (map page_content docs) \<noteq> []"
  shows "page_fetches (snd (load_single_url E u (snd (load_single_url E u w)))) = page_fetches w + 1
       \<and> write_log (snd (load_single_url E u (snd (load_single_url E u w))))
           = write_log w @ [page_path E u]
       \<and> snd (load_single_url E u (snd (load_single_url E u w))) = snd (load_single_url E u w)
       \<and> fst (load_single_url E u (snd (load_single_url E u w)))
           = split_documents E
               [\<lparr>page_content = universal_newlines (py_join [CHR 0x0A, CHR 0x0A] (map page_content docs)),
                 metadata_source = u\<rparr>]"
proof -
  let ?text = "py_join [CHR 0x0A, CHR 0x0A] (map page_content docs)"
  let ?w1 = "PageCache_save E u ?text (w\<lparr>page_fetches := page_fetches w + 1\<rparr>)"
  have first: "load_single_url E u w = (split_documents E docs, ?w1)"
    using assms(1) load_from_web_success [OF assms(2)] by (simp add: load_single_url_def)
  have cached: "PageCache_load E u ?w1 = Some (universal_newlines ?text)"
    by (rule PageCache_load_save)
  have ne: "universal_newlines ?text \<noteq> []"
    using assms(3) by (simp add: universal_newlines_empty)
  have second: "load_single_url E u ?w1
      = (split_documents E [\<lparr>page_content = universal_newlines ?text, metadata_source = u\<rparr>], ?w1)"
    using cached ne by (simp add: load_single_url_def)
  have f: "page_fetches ?w1 = page_fetches w + 1"
    by (simp add: PageCache_save_def write_text_def)
  have l: "write_log ?w1 = write_log w @ [page_path E u]"
    by (simp add: PageCache_save_def write_text_def)
  have s1: "snd (load_single_url E u w) = ?w1"
    by (simp only: first snd_conv)
  show ?thesis
    unfolding s1 second fst_conv snd_conv using f l by blast
qed

text \<open>
  A URL whose request fails is requested again by the second call, and nothing is written.
\<close>

theorem load_single_url_twice_counterexample:
  "page_fetches empty_world = 0 \<and> write_log empty_world = []
   \<and> page_fetches (snd (load_single_url unreachable_web ''http://h/a''
        (snd (load_single_url unreachable_web ''http://h/a'' empty_world)))) = 2
   \<and> write_log (snd (load_single_url unreachable_web ''http://h/a''
        (snd (load_single_url unreachable_web ''http://h/a'' empty_world)))) = []"
  by code_simp

theorem load_single_url_twice_witness:
  "PageCache_load stub_ext ''http://h/a'' empty_world = None
   \<and> web_load stub_ext (page_fetches empty_world) ''http://h/a''
       = Inr [\<lparr>page_content = ''page of http://h/a'', metadata_source = ''http://h/a''\<rparr>]
   \<and> page_fetches (snd (load_single_url stub_ext ''http://h/a''
        (snd (load_single_url stub_ext ''http://h/a'' empty_world)))) = page_fetches empty_world + 1
   \<and> write_log (snd (load_single_url stub_ext ''http://h/a''
        (snd (load_single_url stub_ext ''http://h/a'' empty_world))))
       = write_log empty_world @ [page_path stub_ext ''http://h/a'']
   \<and> page_path stub_ext ''http://h/a'' = ''cache/pages/http://h/a.txt''"
proof -
  have a: "PageCache_load stub_ext ''http://h/a'' empty_world = None"
    by code_simp
  have b: "web_load stub_ext (page_fetches empty_world) ''http://h/a''
       = Inr [\<lparr>page_content = ''page of http://h/a'', metadata_source = ''http://h/a''\<rparr>]"
    by code_simp
  have c: "py_join [CHR 0x0A, CHR 0x0A]
             (map page_content [\<lparr>page_content = ''page of http://h/a'', metadata_source = ''http://h/a''\<rparr>]) \<noteq> []"
    by simp
  have p: "page_path stub_ext ''http://h/a'' = ''cache/pages/http://h/a.txt''"
    by code_simp
  show ?thesis
    using a b p load_single_url_twice [OF a b c] by blast
qed

text \<open>
  A page whose text is empty is saved, but the saved empty text does not pass the test
  \<^verbatim>\<open>if cached:\<close>, so the second call requests and saves it again.
\<close>

lemma load_single_url_empty_page:
  "page_fetches (snd (load_single_url empty_page_web ''http://h/a''
        (snd (load_single_url empty_page_web ''http://h/a'' empty_world)))) = 2
   \<and> length (write_log (snd (load_single_url empty_page_web ''http://h/a''
        (snd (load_single_url empty_page_web ''http://h/a'' empty_world))))) = 2"
  by code_simp


section \<open>Invoking the chain with retries\<close>

lemma attempts_safe_invoke_loop:
  "attempts (snd (safe_invoke_loop invoke_once uniform ns delay r)) \<le> attempts r + length ns"
proof (induction ns arbitrary: delay r)
  case Nil
  then show ?case by simp
next
  case (Cons n ns)
  show ?case
  proof (cases "invoke_once n")
    case (Inr result)
    then show ?thesis by (simp add: Let_def)
  next
    case (Inl e)
    show ?thesis
    proof (cases e)
      case ResourceExhausted
      with Inl show ?thesis
        using Cons.IH [of delay "r\<lparr>attempts := attempts r + 1, sleeps := sleeps r @ [60]\<rparr>"]
        by (simp add: Let_def)
    next
      case InternalServerError
      with Inl show ?thesis
        using Cons.IH [of "min (delay * 2) 60"
            "r\<lparr>attempts := attempts r + 1, sleeps := sleeps r @ [delay + uniform n 0 (0.1 * delay)]\<rparr>"]
        by (simp add: Let_def)
    qed (use Inl in \<open>simp_all add: Let_def\<close>)
  qed
qed

lemma range_3: "[0..<3] = [0, 1, 2]"
  by (simp add: upt_rec)

text \<open>
  C9. \<^verbatim>\<open>safe_invoke\<close> makes at most three attempts. Two internal server errors followed
  by a result give that result after exactly three attempts, with the two sleeps in
  between; an exception other than an exhausted quota or an internal server error at the
  first attempt gives the error answer after exactly one attempt and no sleep; three
  attempts that each end in an exhausted quota or an internal server error give the answer
  that reports the failure. Every outcome is a returned answer.
\<close>

theorem safe_invoke_attempts:
  "attempts (snd (safe_invoke invoke_once uniform)) \<le> 3
   \<and> (invoke_once 0 = Inl InternalServerError \<and> invoke_once 1 = Inl InternalServerError
        \<and> invoke_once 2 = Inr result \<longrightarrow>
        fst (safe_invoke invoke_once uniform) = Result result
        \<and> attempts (snd (safe_invoke invoke_once uniform)) = 3
        \<and> sleeps (snd (safe_invoke invoke_once uniform))
            = [1 + uniform 0 0 (0.1 * 1), 2 + uniform 1 0 (0.1 * 2)])
   \<and> (invoke_once 0 = Inl e \<and> e \<noteq> ResourceExhausted \<and> e \<noteq> InternalServerError \<longrightarrow>
        fst (safe_invoke invoke_once uniform) = ErrorOccurred e
        \<and> attempts (snd (safe_invoke invoke_once uniform)) = 1
        \<and> sleeps (snd (safe_invoke invoke_once uniform)) = [])
   \<and> ((\<forall>n < 3. invoke_once n = Inl ResourceExhausted \<or> invoke_once n = Inl InternalServerError) \<longrightarrow>
        fst (safe_invoke invoke_once uniform) = FailedAfterAttempts
        \<and> attempts (snd (safe_invoke invoke_once uniform)) = 3)"
proof -
  have bound: "attempts (snd (safe_invoke invoke_once uniform)) \<le> 3"
    using attempts_safe_invoke_loop [of invoke_once uniform "[0..<3]" 1 "\<lparr>attempts = 0, sleeps = []\<rparr>"]
    by (simp add: safe_invoke_def)
  have transient: "fst (safe_invoke invoke_once uniform) = Result result
        \<and> attempts (snd (safe_invoke invoke_once uniform)) = 3
        \<and> sleeps (snd (safe_invoke invoke_once uniform))
            = [1 + uniform 0 0 (0.1 * 1), 2 + uniform 1 0 (0.1 * 2)]"
    if "invoke_once 0 = Inl InternalServerError" "invoke_once 1 = Inl InternalServerError"
       "invoke_once 2 = Inr result"
    using that by (simp add: safe_invoke_def range_3 Let_def)
  have other: "fst (safe_invoke invoke_once uniform) = ErrorOccurred e
        \<and> attempts (snd (safe_invoke invoke_once uniform)) = 1
        \<and> sleeps (snd (safe_invoke invoke_once uniform)) = []"
    if "invoke_once 0 = Inl e" "e \<noteq> ResourceExhausted" "e \<noteq> InternalServerError"
    using that by (cases e) (simp_all add: safe_invoke_def range_3 Let_def)
  have exhausted: "fst (safe_invoke invoke_once uniform) = FailedAfterAttempts
        \<and> attempts (snd (safe_invoke invoke_once uniform)) = 3"
    if a: "\<forall>n < 3. invoke_once n = Inl ResourceExhausted \<or> invoke_once n = Inl InternalServerError"
  proof -
    from a have 0: "invoke_once 0 = Inl ResourceExhausted \<or> invoke_once 0 = Inl InternalServerError"
      by simp
    from a have 1: "invoke_once 1 = Inl ResourceExhausted \<or> invoke_once 1 = Inl InternalServerError"
      by simp
    from a have 2: "invoke_once 2 = Inl ResourceExhausted \<or> invoke_once 2 = Inl InternalServerError"
      by simp
    from 0 1 2 show ?thesis
      by (auto simp: safe_invoke_def range_3 Let_def)
  qed
  from bound transient other exhausted show ?thesis by blast
qed

theorem safe_invoke_attempts_witness:
  "twice_transient 0 = Inl InternalServerError \<and> twice_transient 1 = Inl InternalServerError
   \<and> twice_transient 2 = Inr ''answer''
   \<and> safe_invoke twice_transient no_jitter = (Result ''answer'', \<lparr>attempts = 3, sleeps = [1, 2]\<rparr>)
   \<and> always_unauthorized 0 = Inl Unauthorized
   \<and> safe_invoke always_unauthorized no_jitter = (ErrorOccurred Unauthorized, \<lparr>attempts = 1, sleeps = []\<rparr>)
   \<and> always_exhausted 0 = Inl ResourceExhausted \<and> always_exhausted 1 = Inl ResourceExhausted
   \<and> always_exhausted 2 = Inl ResourceExhausted
   \<and> safe_invoke always_exhausted no_jitter = (FailedAfterAttempts, \<lparr>attempts = 3, sleeps = [60, 60, 60]\<rparr>)
   \<and> attempts (snd (safe_invoke always_exhausted no_jitter)) \<le> 3"
proof -
  have t: "twice_transient 0 = Inl InternalServerError" "twice_transient 1 = Inl InternalServerError"
     "twice_transient 2 = Inr ''answer''"
    by (simp_all add: twice_transient_def)
  have u: "always_unauthorized 0 = Inl Unauthorized" "Unauthorized \<noteq> ResourceExhausted"
     "Unauthorized \<noteq> InternalServerError"
    by (simp_all add: always_unauthorized_def)
  have x: "\<forall>n < 3. always_exhausted n = Inl ResourceExhausted \<or> always_exhausted n = Inl InternalServerError"
    by (simp add: always_exhausted_def)
  have x3: "always_exhausted 0 = Inl ResourceExhausted" "always_exhausted 1 = Inl ResourceExhausted"
     "always_exhausted 2 = Inl ResourceExhausted"
    by (simp_all add: always_exhausted_def)
  have v1: "safe_invoke twice_transient no_jitter = (Result ''answer'', \<lparr>attempts = 3, sleeps = [1, 2]\<rparr>)"
    by (simp add: safe_invoke_def range_3 twice_transient_def no_jitter_def Let_def)
  have v2: "safe_invoke always_unauthorized no_jitter = (ErrorOccurred Unauthorized, \<lparr>attempts = 1, sleeps = []\<rparr>)"
    by (simp add: safe_invoke_def range_3 always_unauthorized_def Let_def)
  have v3: "safe_invoke always_exhausted no_jitter = (FailedAfterAttempts, \<lparr>attempts = 3, sleeps = [60, 60, 60]\<rparr>)"
    by (simp add: safe_invoke_def range_3 always_exhausted_def Let_def)
  show ?thesis
    using t u x x3 v1 v2 v3
      safe_invoke_attempts [of twice_transient no_jitter "''answer''" Unauthorized]
      safe_invoke_attempts [of always_unauthorized no_jitter "''answer''" Unauthorized]
      safe_invoke_attempts [of always_exhausted no_jitter "''answer''" Unauthorized]
    by blast
qed


section \<open>Embedding a selected link\<close>

lemma EmbeddingCache_load_calls:
  "EmbeddingCache_load E u (w\<lparr>embed_calls := n\<rparr>) = EmbeddingCache_load E u w"
  by (simp add: EmbeddingCache_load_def)

text \<open>
  C10, as the code has it. The embedding of a selected link is requested from the provider
  directly and at most once: a cached vector is reused without a call; without a cached
  vector one call is made and its vector is saved under the URL of the link; and when
  that call raises, for the first selected link or for a link at any later place in the
  selection, no second attempt is made: the ranking returns the empty list, and the failed
  call is the last one it made. A ranking that does not fail has embedded every selected
  link in this way, in turn.
\<close>

theorem link_embedding_no_retry:
  "(EmbeddingCache_load E (link_url l) w = Some v \<longrightarrow> link_embedding E l w = (Inr v, w))
   \<and> (EmbeddingCache_load E (link_url l) w = None
        \<and> provider_embed E (embed_calls w) (link_context l) = Inr emb \<longrightarrow>
        link_embedding E l w
          = (Inr emb, EmbeddingCache_save E (link_url l) emb (w\<lparr>embed_calls := embed_calls w + 1\<rparr>)))
   \<and> (EmbeddingCache_load E (link_url l) w = None
        \<and> provider_embed E (embed_calls w) (link_context l) = Inl e \<longrightarrow>
        link_embedding E l w = (Inl e, w\<lparr>embed_calls := embed_calls w + 1\<rparr>))
   \<and> (provider_embed E (embed_calls w) query = Inr qe
        \<and> selection_set budget min_links query link_data = l # rest
        \<and> EmbeddingCache_load E (link_url l) w = None
        \<and> provider_embed E (embed_calls w + 1) (link_context l) = Inl e \<longrightarrow>
        rank_links_by_query_relevance E budget query link_data top_k min_links w
          = ([], w\<lparr>embed_calls := embed_calls w + 2\<rparr>))
   \<and> (provider_embed E (embed_calls w) query = Inr qe
        \<and> selection_set budget min_links query link_data = pre @ l # rest
        \<and> spec_scored_in_turn E qe (w\<lparr>embed_calls := embed_calls w + 1\<rparr>) pre ps wi
        \<and> EmbeddingCache_load E (link_url l) wi = None
        \<and> provider_embed E (embed_calls wi) (link_context l) = Inl e \<longrightarrow>
        rank_links_by_query_relevance E budget query link_data top_k min_links w
          = ([], wi\<lparr>embed_calls := embed_calls wi + 1\<rparr>))
   \<and> (fst (rank_try E budget query link_data top_k min_links w) = Inr top_links \<longrightarrow>
        (\<exists>qe scored.
           provider_embed E (embed_calls w) query = Inr qe
         \<and> spec_scored_in_turn E qe (w\<lparr>embed_calls := embed_calls w + 1\<rparr>)
              (selection_set budget min_links query link_data) scored
              (snd (rank_links_by_query_relevance E budget query link_data top_k min_links w))))"
proof -
  have hit: "link_embedding E l w = (Inr v, w)"
    if "EmbeddingCache_load E (link_url l) w = Some v"
    using that by (simp add: link_embedding_def)
  have miss: "link_embedding E l w
          = (Inr emb, EmbeddingCache_save E (link_url l) emb (w\<lparr>embed_calls := embed_calls w + 1\<rparr>))"
    if "EmbeddingCache_load E (link_url l) w = None"
       "provider_embed E (embed_calls w) (link_context l) = Inr emb"
    using that by (simp add: link_embedding_def embed_document_def)
  have fail: "link_embedding E l w = (Inl e, w\<lparr>embed_calls := embed_calls w + 1\<rparr>)"
    if "EmbeddingCache_load E (link_url l) w = None"
       "provider_embed E (embed_calls w) (link_context l) = Inl e"
    using that by (simp add: link_embedding_def embed_document_def)
  have later: "rank_links_by_query_relevance E budget query link_data top_k min_links w
          = ([], wi\<lparr>embed_calls := embed_calls wi + 1\<rparr>)"
    if "provider_embed E (embed_calls w) query = Inr qe"
       "selection_set budget min_links query link_data = pre @ l # rest"
       "spec_scored_in_turn E qe (w\<lparr>embed_calls := embed_calls w + 1\<rparr>) pre ps wi"
       "EmbeddingCache_load E (link_url l) wi = None"
       "provider_embed E (embed_calls wi) (link_context l) = Inl e"
    for pre ps wi
    by (rule rank_of_failure)
       (rule rank_try_link_failure [OF that(1,2,3) score_selected_provider_failure [OF that(4,5)]])
  have first: "rank_links_by_query_relevance E budget query link_data top_k min_links w
          = ([], w\<lparr>embed_calls := embed_calls w + 2\<rparr>)"
    if q: "provider_embed E (embed_calls w) query = Inr qe"
       and sel: "selection_set budget min_links query link_data = l # rest"
       and c: "EmbeddingCache_load E (link_url l) w = None"
       and f: "provider_embed E (embed_calls w + 1) (link_context l) = Inl e"
  proof -
    let ?w1 = "w\<lparr>embed_calls := embed_calls w + 1\<rparr>"
    have "rank_links_by_query_relevance E budget query link_data top_k min_links w
          = ([], ?w1\<lparr>embed_calls := embed_calls ?w1 + 1\<rparr>)"
      using q sel c f
      by (intro later [of "[]" "[]" ?w1]) (simp_all add: EmbeddingCache_load_calls)
    then show ?thesis by simp
  qed
  have complete: "\<exists>qe scored.
           provider_embed E (embed_calls w) query = Inr qe
         \<and> spec_scored_in_turn E qe (w\<lparr>embed_calls := embed_calls w + 1\<rparr>)
              (selection_set budget min_links query link_data) scored
              (snd (rank_links_by_query_relevance E budget query link_data top_k min_links w))"
    if a: "fst (rank_try E budget query link_data top_k min_links w) = Inr top_links"
  proof -
    from rank_try_success [OF a] obtain qe scored w' where
      "provider_embed E (embed_calls w) query = Inr qe"
      "rank_try E budget query link_data top_k min_links w = (Inr top_links, w')"
      "spec_scored_in_turn E qe (w\<lparr>embed_calls := embed_calls w + 1\<rparr>)
         (selection_set budget min_links query link_data) scored w'"
      by blast
    then show ?thesis by (auto simp: world_rank)
  qed
  from hit miss fail first later complete show ?thesis by blast
qed

text \<open>
  The first document embedding raises an internal server error, and the provider would
  have answered the next call: the ranking still returns the empty list after two calls.
\<close>

theorem link_embedding_no_retry_counterexample:
  "provider_embed (failing_at 1 InternalServerError) 1 (link_context link_pay) = Inl InternalServerError
   \<and> provider_embed (failing_at 1 InternalServerError) 2 (link_context link_pay) = Inr [1, 0]
   \<and> fst (rank_try (failing_at 1 InternalServerError) TOTAL_EMBEDDING_BUDGET ''benefits pay''
            example_links 20 10 empty_world) = Inl InternalServerError
   \<and> fst (rank_links_by_query_relevance (failing_at 1 InternalServerError) TOTAL_EMBEDDING_BUDGET
            ''benefits pay'' example_links 20 10 empty_world) = []
   \<and> embed_calls (snd (rank_links_by_query_relevance (failing_at 1 InternalServerError)
            TOTAL_EMBEDDING_BUDGET ''benefits pay'' example_links 20 10 empty_world)) = 2"
  by code_simp

theorem link_embedding_no_retry_witness:
  "EmbeddingCache_load stub_ext (link_url link_about) warm_world = Some [0, 1]
   \<and> link_embedding stub_ext link_about warm_world = (Inr [0, 1], warm_world)
   \<and> EmbeddingCache_load stub_ext (link_url link_about) empty_world = None
   \<and> provider_embed stub_ext (embed_calls empty_world) (link_context link_about) = Inr [0, 1]
   \<and> link_embedding stub_ext link_about empty_world
       = (Inr [0, 1], EmbeddingCache_save stub_ext (link_url link_about) [0, 1]
                        (empty_world\<lparr>embed_calls := embed_calls empty_world + 1\<rparr>))
   \<and> provider_embed (failing_at 0 ResourceExhausted) (embed_calls empty_world) (link_context link_about)
       = Inl ResourceExhausted
   \<and> link_embedding (failing_at 0 ResourceExhausted) link_about empty_world
       = (Inl ResourceExhausted, empty_world\<lparr>embed_calls := embed_calls empty_world + 1\<rparr>)
   \<and> selection_set TOTAL_EMBEDDING_BUDGET 10 ''benefits pay'' example_links
       = link_pay # [link_benefits, link_about]
   \<and> rank_links_by_query_relevance (failing_at 1 InternalServerError) TOTAL_EMBEDDING_BUDGET
        ''benefits pay'' example_links 20 10 empty_world
       = ([], empty_world\<lparr>embed_calls := embed_calls empty_world + 2\<rparr>)
   \<and> selection_set TOTAL_EMBEDDING_BUDGET 10 ''benefits pay'' example_links
       = [link_pay] @ link_benefits # [link_about]
   \<and> spec_scored_in_turn (failing_at 2 ResourceExhausted) [1, 0]
        (empty_world\<lparr>embed_calls := embed_calls empty_world + 1\<rparr>)
        [link_pay] [(1, link_url link_pay)] (after_first_link (failing_at 2 ResourceExhausted))
   \<and> provider_embed (failing_at 2 ResourceExhausted)
        (embed_calls (after_first_link (failing_at 2 ResourceExhausted)))
        (link_context link_benefits) = Inl ResourceExhausted
   \<and> provider_embed (failing_at 2 ResourceExhausted) 3 (link_context link_benefits) = Inr [3 / 5, 4 / 5]
   \<and> rank_links_by_query_relevance (failing_at 2 ResourceExhausted) TOTAL_EMBEDDING_BUDGET
        ''benefits pay'' example_links 20 10 empty_world
       = ([], (after_first_link (failing_at 2 ResourceExhausted))
                \<lparr>embed_calls := embed_calls (after_first_link (failing_at 2 ResourceExhausted)) + 1\<rparr>)
   \<and> embed_calls (after_first_link (failing_at 2 ResourceExhausted)) + 1 = 3
   \<and> fst (rank_try stub_ext TOTAL_EMBEDDING_BUDGET ''benefits pay'' example_links 20 10 empty_world)
       = Inr [(1, ''http://h/c''), (3 / 5, ''http://h/b''), (0, ''http://h/a'')]
   \<and> (\<exists>qe scored.
         provider_embed stub_ext (embed_calls empty_world) ''benefits pay'' = Inr qe
       \<and> spec_scored_in_turn stub_ext qe (empty_world\<lparr>embed_calls := embed_calls empty_world + 1\<rparr>)
            (selection_set TOTAL_EMBEDDING_BUDGET 10 ''benefits pay'' example_links) scored
            (snd (rank_links_by_query_relevance stub_ext TOTAL_EMBEDDING_BUDGET ''benefits pay''
                    example_links 20 10 empty_world)))"
proof -
  let ?w1 = "empty_world\<lparr>embed_calls := embed_calls empty_world + 1\<rparr>"
  let ?X = "failing_at 2 ResourceExhausted"
  have h1: "EmbeddingCache_load stub_ext (link_url link_about) warm_world = Some [0, 1]"
    by code_simp
  have h2: "EmbeddingCache_load stub_ext (link_url link_about) empty_world = None"
    by code_simp
  have h3: "provider_embed stub_ext (embed_calls empty_world) (link_context link_about) = Inr [0, 1]"
    by code_simp
  have h4: "EmbeddingCache_load (failing_at 0 ResourceExhausted) (link_url link_about) empty_world = None"
    by code_simp
  have h5: "provider_embed (failing_at 0 ResourceExhausted) (embed_calls empty_world) (link_context link_about)
       = Inl ResourceExhausted"
    by code_simp
  have h6: "provider_embed (failing_at 1 InternalServerError) (embed_calls empty_world) ''benefits pay''
       = Inr [1, 0]"
    by code_simp
  have h7: "selection_set TOTAL_EMBEDDING_BUDGET 10 ''benefits pay'' example_links
       = link_pay # [link_benefits, link_about]"
    by code_simp
  have h8: "EmbeddingCache_load (failing_at 1 InternalServerError) (link_url link_pay) empty_world = None"
    by code_simp
  have h9: "provider_embed (failing_at 1 InternalServerError) (embed_calls empty_world + 1)
              (link_context link_pay) = Inl InternalServerError"
    by code_simp
  have q: "provider_embed ?X (embed_calls empty_world) ''benefits pay'' = Inr [1, 0]"
    by code_simp
  have sel: "selection_set TOTAL_EMBEDDING_BUDGET 10 ''benefits pay'' example_links
       = [link_pay] @ link_benefits # [link_about]"
    by code_simp
  have p1: "EmbeddingCache_load ?X (link_url link_pay) ?w1 = None"
    by code_simp
  have p2: "provider_embed ?X (embed_calls ?w1) (link_context link_pay) = Inr [1, 0]"
    by code_simp
  have p3: "cosine_similarity ?X [1, 0] [1, 0] = Inr 1"
    by code_simp
  note pre = first_link_scored [OF p1 p2 p3]
  have miss: "EmbeddingCache_load ?X (link_url link_benefits) (after_first_link ?X) = None"
    by code_simp
  have fail: "provider_embed ?X (embed_calls (after_first_link ?X)) (link_context link_benefits)
       = Inl ResourceExhausted"
    by code_simp
  have next_ok: "provider_embed ?X 3 (link_context link_benefits) = Inr [3 / 5, 4 / 5]"
    by code_simp
  have three: "embed_calls (after_first_link ?X) + 1 = 3"
    by code_simp
  have t: "fst (rank_try stub_ext TOTAL_EMBEDDING_BUDGET ''benefits pay'' example_links 20 10 empty_world)
       = Inr [(1, ''http://h/c''), (3 / 5, ''http://h/b''), (0, ''http://h/a'')]"
    by code_simp
  note a = link_embedding_no_retry
    [where E = stub_ext and l = link_about and w = warm_world and v = "[0, 1]"]
  note b = link_embedding_no_retry
    [where E = stub_ext and l = link_about and w = empty_world and emb = "[0, 1]"]
  note c = link_embedding_no_retry
    [where E = "failing_at 0 ResourceExhausted" and l = link_about and w = empty_world
       and e = ResourceExhausted]
  note d = link_embedding_no_retry
    [where E = "failing_at 1 InternalServerError" and l = link_pay and w = empty_world
       and e = InternalServerError and query = "''benefits pay''" and qe = "[1, 0]"
       and budget = TOTAL_EMBEDDING_BUDGET and min_links = 10 and link_data = example_links
       and rest = "[link_benefits, link_about]" and top_k = 20]
  note f = link_embedding_no_retry
    [where E = ?X and l = link_benefits and w = empty_world
       and e = ResourceExhausted and query = "''benefits pay''" and qe = "[1, 0]"
       and budget = TOTAL_EMBEDDING_BUDGET and min_links = 10 and link_data = example_links
       and pre = "[link_pay]" and rest = "[link_about]" and ps = "[(1, link_url link_pay)]"
       and wi = "after_first_link ?X" and top_k = 20]
  note g = link_embedding_no_retry
    [where E = stub_ext and w = empty_world and query = "''benefits pay''"
       and budget = TOTAL_EMBEDDING_BUDGET and min_links = 10 and link_data = example_links
       and top_k = 20
       and top_links = "[(1, ''http://h/c''), (3 / 5, ''http://h/b''), (0, ''http://h/a'')]"]
  from a h1 have r1: "link_embedding stub_ext link_about warm_world = (Inr [0, 1], warm_world)"
    by blast
  from b h2 h3 have r2: "link_embedding stub_ext link_about empty_world
       = (Inr [0, 1], EmbeddingCache_save stub_ext (link_url link_about) [0, 1]
                        (empty_world\<lparr>embed_calls := embed_calls empty_world + 1\<rparr>))"
    by blast
  from c h4 h5 have r3: "link_embedding (failing_at 0 ResourceExhausted) link_about empty_world
       = (Inl ResourceExhausted, empty_world\<lparr>embed_calls := embed_calls empty_world + 1\<rparr>)"
    by blast
  from d h6 h7 h8 h9 have r4: "rank_links_by_query_relevance (failing_at 1 InternalServerError) TOTAL_EMBEDDING_BUDGET
        ''benefits pay'' example_links 20 10 empty_world
       = ([], empty_world\<lparr>embed_calls := embed_calls empty_world + 2\<rparr>)"
    by blast
  from f q sel pre miss fail have r5: "rank_links_by_query_relevance ?X TOTAL_EMBEDDING_BUDGET
        ''benefits pay'' example_links 20 10 empty_world
       = ([], (after_first_link ?X)\<lparr>embed_calls := embed_calls (after_first_link ?X) + 1\<rparr>)"
    by blast
  from g t have r6: "\<exists>qe scored.
         provider_embed stub_ext (embed_calls empty_world) ''benefits pay'' = Inr qe
       \<and> spec_scored_in_turn stub_ext qe ?w1
            (selection_set TOTAL_EMBEDDING_BUDGET 10 ''benefits pay'' example_links) scored
            (snd (rank_links_by_query_relevance stub_ext TOTAL_EMBEDDING_BUDGET ''benefits pay''
                    example_links 20 10 empty_world))"
    by blast
  from h1 h2 h3 h5 h7 r1 r2 r3 r4 sel pre fail next_ok r5 three t r6 show ?thesis by blast
qed

end
